theory Spec2Isabelle
  imports Complex_Main "HOL-Library.Sublist" "HOL-Library.Multiset"
begin

chapter \<open>The PII-detection training notebook\<close>

text \<open>
  A shallow embedding of \<^verbatim>\<open>notebooks/pii_detection/pii_detection_training_example.ipynb\<close>.
  The notebook is a linear sequence of cells; each cell becomes one or more definitions, in
  the order of the cells. Calls into cudf, cupy, torch, transformers and scikit-learn are
  either parameters of the definitions (the tokenizer, the network, the loss function, the
  optimizer, the random permutations) or small list programs that follow the library's
  documented behaviour (column selection, reshape, random split, batching). Python
  exceptions are values of \<open>py_error\<close>; tensor elements of floating type are real numbers,
  so rounding is not part of the model.
\<close>

section \<open>Python errors and numbers\<close>

datatype py_error =
  ValueError | KeyError | TypeError | ZeroDivisionError | RuntimeError | AssertionError
  | AttributeError

text \<open>\<^verbatim>\<open>int(x)\<close> on a float: truncation towards zero.\<close>

definition py_int :: "real \<Rightarrow> int" where
  "py_int x = (if 0 \<le> x then \<lfloor>x\<rfloor> else \<lceil>x\<rceil>)"

text \<open>\<^verbatim>\<open>a / n\<close> with an integer divisor: true division, raising on a zero divisor.\<close>

definition py_truediv :: "real \<Rightarrow> nat \<Rightarrow> py_error + real" where
  "py_truediv a n = (if n = 0 then Inl ZeroDivisionError else Inr (a / real n))"

text \<open>\<^verbatim>\<open>xs[a:b]\<close> for indices \<open>0 \<le> a\<close> and \<open>0 \<le> b\<close>.\<close>

definition py_slice :: "'a list \<Rightarrow> nat \<Rightarrow> nat \<Rightarrow> 'a list" where
  "py_slice xs a b = take (b - a) (drop a xs)"

text \<open>\<^verbatim>\<open>xs.remove(x)\<close>: drops the first occurrence, \<^verbatim>\<open>ValueError\<close> when there is none.\<close>

fun list_remove :: "'a list \<Rightarrow> 'a \<Rightarrow> py_error + 'a list" where
  "list_remove [] x = Inl ValueError"
| "list_remove (y # ys) x =
     (if y = x then Inr ys
      else (case list_remove ys x of Inl e \<Rightarrow> Inl e | Inr r \<Rightarrow> Inr (y # r)))"

text \<open>\<^verbatim>\<open>nd in n\<close> on strings: \<open>nd\<close> occurs in \<open>n\<close> as a contiguous substring.\<close>

fun starts_with :: "string \<Rightarrow> string \<Rightarrow> bool" where
  "starts_with n [] = True"
| "starts_with [] (d # ds) = False"
| "starts_with (c # cs) (d # ds) = (c = d \<and> starts_with cs ds)"

fun str_contains :: "string \<Rightarrow> string \<Rightarrow> bool" where
  "str_contains [] nd = (nd = [])"
| "str_contains (c # cs) nd = (starts_with (c # cs) nd \<or> str_contains cs nd)"

section \<open>Tables and two-dimensional tensors\<close>

text \<open>
  A cudf data frame: an index length and named columns, in header order. A column holds
  strings or integers.
\<close>

datatype column = StrCol "string list" | IntCol "int list"

fun col_len :: "column \<Rightarrow> nat" where
  "col_len (StrCol xs) = length xs"
| "col_len (IntCol xs) = length xs"

fun is_int_col :: "column \<Rightarrow> bool" where
  "is_int_col (IntCol xs) = True"
| "is_int_col (StrCol xs) = False"

fun int_values :: "column \<Rightarrow> int list" where
  "int_values (IntCol xs) = xs"
| "int_values (StrCol xs) = []"

record dataframe =
  nrows :: nat
  cols :: "(string \<times> column) list"

definition df_columns :: "dataframe \<Rightarrow> string list" where
  "df_columns df = map fst (cols df)"

text \<open>
  The invariant of a data frame: column names are unique and every column has one entry
  per row.
\<close>

definition valid_df :: "dataframe \<Rightarrow> bool" where
  "valid_df df \<longleftrightarrow>
     distinct (df_columns df) \<and> list_all (\<lambda>nc. col_len (snd nc) = nrows df) (cols df)"

text \<open>
  The sample table of the notebook: a valid data frame with a column \<open>text\<close>, all other
  columns numeric.
\<close>

definition sample_table :: "dataframe \<Rightarrow> bool" where
  "sample_table df \<longleftrightarrow>
     valid_df df \<and> ''text'' \<in> set (df_columns df) \<and>
     list_all (\<lambda>nc. fst nc = ''text'' \<or> is_int_col (snd nc)) (cols df)"

text \<open>A tensor of two dimensions: its shape, and its rows.\<close>

record 'a tensor2 =
  shape :: "nat \<times> nat"
  rows :: "'a list list"

definition tensor_ok :: "'a tensor2 \<Rightarrow> bool" where
  "tensor_ok t \<longleftrightarrow>
     length (rows t) = fst (shape t) \<and> list_all (\<lambda>r. length r = snd (shape t)) (rows t)"

definition map_tensor :: "('a \<Rightarrow> 'b) \<Rightarrow> 'a tensor2 \<Rightarrow> 'b tensor2" where
  "map_tensor f t = \<lparr>shape = shape t, rows = map (map f) (rows t)\<rparr>"

text \<open>\<^verbatim>\<open>a.reshape(n, m)\<close> of a flat array: the element count must be \<open>n * m\<close>.\<close>

definition reshape :: "'a list \<Rightarrow> nat \<Rightarrow> nat \<Rightarrow> py_error + 'a tensor2" where
  "reshape xs n m =
     (if length xs = n * m
      then Inr \<lparr>shape = (n, m), rows = map (\<lambda>i. take m (drop (i * m) xs)) [0..<n]\<rparr>
      else Inl ValueError)"

section \<open>Cell: label names and the label tensor\<close>

text \<open>
  \<^verbatim>\<open>label_names = list(df.columns); label_names.remove('text')\<close>
\<close>

definition label_names :: "dataframe \<Rightarrow> py_error + string list" where
  "label_names df = list_remove (df_columns df) ''text''"

text \<open>\<^verbatim>\<open>df[names]\<close>: the named columns, in the order of \<open>names\<close>.\<close>

primrec select_cols ::
  "(string \<times> column) list \<Rightarrow> string list \<Rightarrow> py_error + (string \<times> column) list" where
  "select_cols cs [] = Inr []"
| "select_cols cs (n # ns) =
     (case map_of cs n of
        None \<Rightarrow> Inl KeyError
      | Some c \<Rightarrow>
          (case select_cols cs ns of Inl e \<Rightarrow> Inl e | Inr r \<Rightarrow> Inr ((n, c) # r)))"

definition df_getitem :: "dataframe \<Rightarrow> string list \<Rightarrow> py_error + dataframe" where
  "df_getitem df names =
     (case select_cols (cols df) names of
        Inl e \<Rightarrow> Inl e
      | Inr cs \<Rightarrow> Inr \<lparr>nrows = nrows df, cols = cs\<rparr>)"

text \<open>
  Modelled from the spec: cudf's \<^verbatim>\<open>to_dlpack\<close> and torch's \<^verbatim>\<open>from_dlpack\<close> are not part of
  the notebook. The spec has the label matrix as a "numeric array of shape (num_samples,
  num_labels)" whose "column order defines the label-index mapping": the numeric columns
  of the frame side by side, one tensor row per table row. A column of strings is refused.
\<close>

primrec numeric_cols :: "(string \<times> column) list \<Rightarrow> py_error + int list list" where
  "numeric_cols [] = Inr []"
| "numeric_cols (nc # ncs) =
     (case snd nc of
        StrCol _ \<Rightarrow> Inl TypeError
      | IntCol xs \<Rightarrow>
          (case numeric_cols ncs of Inl e \<Rightarrow> Inl e | Inr r \<Rightarrow> Inr (xs # r)))"

definition to_tensor :: "dataframe \<Rightarrow> py_error + int tensor2" where
  "to_tensor df =
     (case numeric_cols (cols df) of
        Inl e \<Rightarrow> Inl e
      | Inr cs \<Rightarrow>
          Inr \<lparr>shape = (nrows df, length cs),
               rows = map (\<lambda>i. map (\<lambda>c. c ! i) cs) [0..<nrows df]\<rparr>)"

text \<open>
  \<^verbatim>\<open>labels = from_dlpack(df[label_names].to_dlpack()).type(torch.long)\<close>
\<close>

definition labels :: "dataframe \<Rightarrow> string list \<Rightarrow> py_error + int tensor2" where
  "labels df names =
     (case df_getitem df names of
        Inl e \<Rightarrow> Inl e
      | Inr sel \<Rightarrow>
          (case to_tensor sel of
             Inl e \<Rightarrow> Inl e
           | Inr t \<Rightarrow> Inr (map_tensor (\<lambda>x. x) t)))"

text \<open>The integer values of the column called \<open>name\<close>.\<close>

definition label_column :: "dataframe \<Rightarrow> string \<Rightarrow> int list" where
  "label_column df name = (case map_of (cols df) name of None \<Rightarrow> [] | Some c \<Rightarrow> int_values c)"

text \<open>\<^verbatim>\<open>df.text\<close>, used through its string accessor: the strings of the column \<open>text\<close>.\<close>

definition df_text :: "dataframe \<Rightarrow> py_error + string list" where
  "df_text df =
     (case map_of (cols df) ''text'' of
        None \<Rightarrow> Inl AttributeError
      | Some c \<Rightarrow> (case c of StrCol xs \<Rightarrow> Inr xs | IntCol _ \<Rightarrow> Inl AttributeError))"

section \<open>Cells: the two tokenizers\<close>

text \<open>
  \<^verbatim>\<open>strings.str.subword_tokenize(hash_file, max_length, stride, max_rows_tensor=...,
  do_lower=..., do_truncate=...)[:2]\<close> is cudf's tokenizer. It is a parameter of the
  model: a function from the hash file, the maximal length, the stride, the two flags, the
  row bound and the strings to the flat arrays of token ids and of mask bits.
\<close>

type_synonym subword_tokenize =
  "string \<Rightarrow> nat \<Rightarrow> nat \<Rightarrow> bool \<Rightarrow> bool \<Rightarrow> nat \<Rightarrow> string list \<Rightarrow> int list \<times> int list"

text \<open>
  \<^verbatim>\<open>from_dlpack(a.reshape(num_strings, seq_length).astype(cupy.float).toDlpack())\<close>
  followed by \<^verbatim>\<open>.type(torch.long)\<close>: reshape, convert the integers to floats, convert
  back by truncation.
\<close>

definition to_long_tensor :: "int list \<Rightarrow> nat \<Rightarrow> nat \<Rightarrow> py_error + int tensor2" where
  "to_long_tensor a num_strings seq_length =
     (case reshape a num_strings seq_length of
        Inl e \<Rightarrow> Inl e
      | Inr t \<Rightarrow> Inr (map_tensor py_int (map_tensor real_of_int t)))"

definition bert_cased_tokenizer ::
  "subword_tokenize \<Rightarrow> string list \<Rightarrow> nat \<Rightarrow> py_error + (int tensor2 \<times> int tensor2)" where
  "bert_cased_tokenizer tok strings seq_length =
     (let num_strings = length strings;
          tm = tok ''resources/bert-base-cased-hash.txt'' seq_length seq_length
                 False True num_strings strings
      in case to_long_tensor (fst tm) num_strings seq_length of
           Inl e \<Rightarrow> Inl e
         | Inr input_ids \<Rightarrow>
             (case to_long_tensor (snd tm) num_strings seq_length of
                Inl e \<Rightarrow> Inl e
              | Inr attention_mask \<Rightarrow> Inr (input_ids, attention_mask)))"

definition bert_uncased_tokenizer ::
  "subword_tokenize \<Rightarrow> string list \<Rightarrow> nat \<Rightarrow> py_error + (int tensor2 \<times> int tensor2)" where
  "bert_uncased_tokenizer tok strings seq_length =
     (let num_strings = length strings;
          tm = tok ''resources/bert-base-uncased-hash.txt'' seq_length seq_length
                 True True num_strings strings
      in case to_long_tensor (fst tm) num_strings seq_length of
           Inl e \<Rightarrow> Inl e
         | Inr input_ids \<Rightarrow>
             (case to_long_tensor (snd tm) num_strings seq_length of
                Inl e \<Rightarrow> Inl e
              | Inr attention_mask \<Rightarrow> Inr (input_ids, attention_mask)))"

text \<open>
  Modelled from the spec: cudf's \<^verbatim>\<open>subword_tokenize\<close> is not part of the notebook. With
  truncation on, the spec has every string give one row of \<open>max_length\<close> entries: "strings
  longer than sequence_length are truncated, shorter ones are padded". The split of one
  string into token ids (which depends on the hash file and on lower-casing) stays a
  parameter \<open>wordpiece\<close>.
\<close>

definition pad_truncate :: "nat \<Rightarrow> int list \<Rightarrow> int list \<times> int list" where
  "pad_truncate max_length toks =
     (let kept = take max_length toks;
          pad = max_length - length kept
      in (kept @ replicate pad 0, replicate (length kept) 1 @ replicate pad 0))"

definition spec_subword_tokenize ::
  "(string \<Rightarrow> bool \<Rightarrow> string \<Rightarrow> int list) \<Rightarrow> subword_tokenize" where
  "spec_subword_tokenize wordpiece hash_file max_length stride do_lower do_truncate
       max_rows strings =
     (let rs = map (\<lambda>s. pad_truncate max_length (wordpiece hash_file do_lower s)) strings
      in (concat (map fst rs), concat (map snd rs)))"

section \<open>Cell: data set, split and loaders\<close>

text \<open>One item of the \<^verbatim>\<open>TensorDataset\<close>: a row of token ids, of mask bits and of labels.\<close>

type_synonym sample = "int list \<times> int list \<times> int list"

text \<open>
  \<^verbatim>\<open>TensorDataset(input_ids, attention_masks, labels)\<close> asserts that the tensors agree in
  their first dimension.
\<close>

definition tensor_dataset ::
  "int tensor2 \<Rightarrow> int tensor2 \<Rightarrow> int tensor2 \<Rightarrow> py_error + sample list" where
  "tensor_dataset input_ids attention_masks labs =
     (if fst (shape attention_masks) = fst (shape input_ids) \<and>
         fst (shape labs) = fst (shape input_ids)
      then Inr (zip (rows input_ids) (zip (rows attention_masks) (rows labs)))
      else Inl AssertionError)"

text \<open>\<^verbatim>\<open>train_size = int(dataset_size * .8)\<close>\<close>

definition train_size :: "nat \<Rightarrow> nat" where
  "train_size dataset_size = nat (py_int (real dataset_size * 0.8))"

text \<open>\<^verbatim>\<open>itertools.accumulate\<close>: the running sums.\<close>

primrec accumulate :: "nat \<Rightarrow> nat list \<Rightarrow> nat list" where
  "accumulate s [] = []"
| "accumulate s (x # xs) = (s + x) # accumulate (s + x) xs"

text \<open>
  \<^verbatim>\<open>Subset(dataset, indices)\<close>, read out in the order of its indices. The indices are
  positions of the data set; the properties below take them from a permutation of
  \<open>[0..<length dataset]\<close>, as \<^verbatim>\<open>randperm\<close> gives.
\<close>

definition subset :: "'a list \<Rightarrow> nat list \<Rightarrow> 'a list" where
  "subset dataset indices = map (\<lambda>i. dataset ! i) indices"

text \<open>
  torch's \<^verbatim>\<open>random_split(dataset, lengths)\<close>: the lengths must add up to the size of the
  data set, and the subsets are consecutive slices of a random permutation of the
  positions. The permutation \<^verbatim>\<open>randperm(sum(lengths))\<close> that torch draws is the parameter
  \<open>randperm\<close>.
\<close>

definition random_split :: "nat list \<Rightarrow> 'a list \<Rightarrow> nat list \<Rightarrow> py_error + 'a list list" where
  "random_split randperm dataset lengths =
     (if sum_list lengths \<noteq> length dataset then Inl ValueError
      else Inr (map (\<lambda>ol. subset dataset (py_slice randperm (fst ol - snd ol) (fst ol)))
                  (zip (accumulate 0 lengths) lengths)))"

text \<open>
  \<^verbatim>\<open>training_dataset, validation_dataset = random_split(dataset, (train_size,
  (dataset_size - train_size)))\<close>, with \<open>dataset_size\<close> the value of \<^verbatim>\<open>len(input_ids)\<close>.
\<close>

definition train_validation_split ::
  "nat list \<Rightarrow> 'a list \<Rightarrow> nat \<Rightarrow> py_error + ('a list \<times> 'a list)" where
  "train_validation_split randperm dataset dataset_size =
     (case random_split randperm dataset
             [train_size dataset_size, dataset_size - train_size dataset_size] of
        Inl e \<Rightarrow> Inl e
      | Inr parts \<Rightarrow>
          (case parts of
             [training_dataset, validation_dataset] \<Rightarrow>
               Inr (training_dataset, validation_dataset)
           | _ \<Rightarrow> Inl ValueError))"

text \<open>
  Iterating torch's \<^verbatim>\<open>DataLoader\<close>: the data set in the order its sampler gives, cut into
  batches of \<open>batch_size\<close>, the last one possibly shorter; no batch at all for an empty
  data set.
\<close>

function chunks :: "nat \<Rightarrow> 'a list \<Rightarrow> 'a list list" where
  "chunks k xs = (if k = 0 \<or> xs = [] then [] else take k xs # chunks k (drop k xs))"
  by pat_completeness auto
termination
  by (relation "measure (\<lambda>(k, xs). length xs)") auto

definition data_loader :: "'a list \<Rightarrow> nat list \<Rightarrow> nat \<Rightarrow> 'a list list" where
  "data_loader dataset order batch_size = chunks batch_size (subset dataset order)"

text \<open>
  \<^verbatim>\<open>train_dataloader = DataLoader(dataset=training_dataset, shuffle=True, batch_size=32)\<close>.
  With \<^verbatim>\<open>shuffle=True\<close> torch builds a \<^verbatim>\<open>RandomSampler\<close> over the data set, and that sampler
  refuses a data set without samples: building the loader raises \<^verbatim>\<open>ValueError\<close>. A loader
  that is built is identified with the data set it wraps.
\<close>

definition train_dataloader :: "'a list \<Rightarrow> py_error + 'a list" where
  "train_dataloader training_dataset =
     (if training_dataset = [] then Inl ValueError else Inr training_dataset)"

text \<open>
  \<^verbatim>\<open>for batch in train_dataloader\<close>: one pass over the loader. It shuffles; the order
  its sampler draws for the pass is the parameter \<open>order\<close>.
\<close>

definition train_batches :: "'a list \<Rightarrow> nat list \<Rightarrow> 'a list list" where
  "train_batches loader order = data_loader loader order 32"

text \<open>
  \<^verbatim>\<open>val_dataloader = DataLoader(dataset=validation_dataset, shuffle=False, batch_size=64)\<close>,
  iterated: the sequential sampler takes the samples in their order and accepts any data
  set.
\<close>

definition val_dataloader :: "'a list \<Rightarrow> 'a list list" where
  "val_dataloader validation_dataset =
     data_loader validation_dataset [0..<length validation_dataset] 64"

section \<open>Cell: optimizer parameter groups\<close>

definition no_decay :: "string list" where
  "no_decay = [''bias'', ''gamma'', ''beta'']"

record 'p param_group =
  params :: "'p list"
  weight_decay_rate :: real

text \<open>\<^verbatim>\<open>any(nd in n for nd in no_decay)\<close>\<close>

definition any_no_decay :: "string \<Rightarrow> bool" where
  "any_no_decay n = list_ex (\<lambda>nd. str_contains n nd) no_decay"

definition optimizer_grouped_parameters :: "(string \<times> 'p) list \<Rightarrow> 'p param_group list" where
  "optimizer_grouped_parameters param_optimizer =
     [\<lparr>params = [p. (n, p) \<leftarrow> param_optimizer, \<not> any_no_decay n],
       weight_decay_rate = 0.01\<rparr>,
      \<lparr>params = [p. (n, p) \<leftarrow> param_optimizer, any_no_decay n],
       weight_decay_rate = 0.0\<rparr>]"

section \<open>Cell: the training loop\<close>

text \<open>
  The network, the loss function and the optimizer are torch's. They are the fields of
  \<open>torch_ops\<close>, over a type \<open>'m\<close> for the state of the network together with its optimizer:
  clearing the gradients, the forward pass to the logits, \<^verbatim>\<open>BCEWithLogitsLoss()\<close> to the
  elements of the loss tensor, the backward pass of a loss, the optimizer step, and the
  switch to evaluation mode.
\<close>

record 'm torch_ops =
  zero_grad :: "'m \<Rightarrow> 'm"
  model_forward :: "'m \<Rightarrow> int list list \<Rightarrow> int list list \<Rightarrow> real list list"
  loss_func :: "real list list \<Rightarrow> real list list \<Rightarrow> real list"
  backward :: "'m \<Rightarrow> real list \<Rightarrow> 'm"
  optimizer_step :: "'m \<Rightarrow> 'm"
  model_eval :: "'m \<Rightarrow> 'm"

text \<open>\<^verbatim>\<open>t.view(-1, m)\<close>: the elements of \<open>t\<close> in rows of \<open>m\<close>.\<close>

definition view :: "'a list list \<Rightarrow> nat \<Rightarrow> py_error + 'a list list" where
  "view t m =
     (if 0 < m \<and> m dvd length (concat t) then Inr (chunks m (concat t))
      else Inl RuntimeError)"

text \<open>
  \<^verbatim>\<open>loss.mean()\<close>: a tensor of one element, the mean of the elements. (For a tensor without
  elements torch gives nan, which the real numbers lack; a loss tensor has at least one
  element.)
\<close>

definition tensor_mean :: "real list \<Rightarrow> real list" where
  "tensor_mean t = [sum_list t / real (length t)]"

text \<open>
  The body of the loop over the batches, up to the tracking variables: the new state of
  the network and the value of \<^verbatim>\<open>loss.item()\<close>. The backward pass takes a loss of one
  element only.
\<close>

definition train_batch ::
  "nat \<Rightarrow> 'm torch_ops \<Rightarrow> nat \<Rightarrow> 'm \<Rightarrow> sample list \<Rightarrow> py_error + ('m \<times> real)" where
  "train_batch n_gpu ops num_labels m batch =
     (let b_input_ids = map fst batch;
          b_input_mask = map (\<lambda>s. fst (snd s)) batch;
          b_labels = map (\<lambda>s. snd (snd s)) batch;
          m1 = zero_grad ops m;
          logits = model_forward ops m1 b_input_ids b_input_mask
      in case view logits num_labels of
           Inl e \<Rightarrow> Inl e
         | Inr lv \<Rightarrow>
             (case view (map (map real_of_int) b_labels) num_labels of
                Inl e \<Rightarrow> Inl e
              | Inr yv \<Rightarrow>
                  (let loss0 = loss_func ops lv yv;
                       loss = (if 1 < n_gpu then tensor_mean loss0 else loss0)
                   in case loss of
                        [x] \<Rightarrow> Inr (optimizer_step ops (backward ops m1 loss), x)
                      | _ \<Rightarrow> Inl RuntimeError)))"

text \<open>
  One pass over the batches. The state is the network and the tracking variables
  \<open>tr_loss\<close>, \<open>nb_tr_examples\<close> and \<open>nb_tr_steps\<close>.
\<close>

fun train_steps ::
  "nat \<Rightarrow> 'm torch_ops \<Rightarrow> nat \<Rightarrow> 'm \<times> real \<times> nat \<times> nat \<Rightarrow> sample list list
     \<Rightarrow> py_error + ('m \<times> real \<times> nat \<times> nat)" where
  "train_steps n_gpu ops num_labels st [] = Inr st"
| "train_steps n_gpu ops num_labels (m, tr_loss, nb_tr_examples, nb_tr_steps) (batch # bs) =
     (case train_batch n_gpu ops num_labels m batch of
        Inl e \<Rightarrow> Inl e
      | Inr mx \<Rightarrow>
          train_steps n_gpu ops num_labels
            (fst mx, tr_loss + snd mx, nb_tr_examples + length batch, nb_tr_steps + 1) bs)"

text \<open>
  One epoch: the tracking variables start at zero, and the value printed after the
  batches is \<^verbatim>\<open>tr_loss/nb_tr_steps\<close>.
\<close>

definition train_epoch ::
  "nat \<Rightarrow> 'm torch_ops \<Rightarrow> nat \<Rightarrow> 'm \<Rightarrow> sample list list \<Rightarrow> py_error + ('m \<times> real)" where
  "train_epoch n_gpu ops num_labels m batches =
     (case train_steps n_gpu ops num_labels (m, 0, 0, 0) batches of
        Inl e \<Rightarrow> Inl e
      | Inr st \<Rightarrow>
          (case py_truediv (fst (snd st)) (snd (snd (snd st))) of
             Inl e \<Rightarrow> Inl e
           | Inr r \<Rightarrow> Inr (fst st, r)))"

definition epochs :: nat where
  "epochs = 4"

text \<open>
  The loop over the epochs, over the training loader built before: \<open>k\<close> epochs to go,
  \<open>e\<close> done, \<open>shuffle e\<close> the order in which the loader goes through the training set in
  epoch \<open>e\<close>, \<open>out\<close> the values printed.
\<close>

fun train_loop ::
  "nat \<Rightarrow> nat \<Rightarrow> nat \<Rightarrow> 'm torch_ops \<Rightarrow> nat \<Rightarrow> (nat \<Rightarrow> nat list) \<Rightarrow> sample list \<Rightarrow> 'm
     \<Rightarrow> real list \<Rightarrow> py_error + ('m \<times> real list)" where
  "train_loop 0 e n_gpu ops num_labels shuffle loader m out = Inr (m, out)"
| "train_loop (Suc k) e n_gpu ops num_labels shuffle loader m out =
     (case train_epoch n_gpu ops num_labels m (train_batches loader (shuffle e)) of
        Inl err \<Rightarrow> Inl err
      | Inr mr \<Rightarrow>
          train_loop k (Suc e) n_gpu ops num_labels shuffle loader (fst mr)
            (out @ [snd mr]))"

definition train ::
  "nat \<Rightarrow> 'm torch_ops \<Rightarrow> nat \<Rightarrow> (nat \<Rightarrow> nat list) \<Rightarrow> sample list \<Rightarrow> 'm
     \<Rightarrow> py_error + ('m \<times> real list)" where
  "train n_gpu ops num_labels shuffle loader m =
     train_loop epochs 0 n_gpu ops num_labels shuffle loader m []"

text \<open>
  The values of \<^verbatim>\<open>loss.item()\<close> of one pass, batch by batch: what the spec calls the
  per-step losses of the epoch.
\<close>

fun batch_losses ::
  "nat \<Rightarrow> 'm torch_ops \<Rightarrow> nat \<Rightarrow> 'm \<Rightarrow> sample list list \<Rightarrow> py_error + real list" where
  "batch_losses n_gpu ops num_labels m [] = Inr []"
| "batch_losses n_gpu ops num_labels m (batch # bs) =
     (case train_batch n_gpu ops num_labels m batch of
        Inl e \<Rightarrow> Inl e
      | Inr mx \<Rightarrow>
          (case batch_losses n_gpu ops num_labels (fst mx) bs of
             Inl e \<Rightarrow> Inl e
           | Inr xs \<Rightarrow> Inr (snd mx # xs)))"

section \<open>Cells: evaluation and confusion matrices\<close>

text \<open>\<^verbatim>\<open>torch.sigmoid\<close>, on one element.\<close>

definition sigmoid :: "real \<Rightarrow> real" where
  "sigmoid x = 1 / (1 + exp (- x))"

text \<open>
  The loop over the validation batches, gathering \<open>logit_preds\<close>, \<open>true_labels\<close> and
  \<open>pred_labels\<close>.
\<close>

fun predict_loop ::
  "'m torch_ops \<Rightarrow> 'm \<Rightarrow> real list list \<times> int list list \<times> real list list
     \<Rightarrow> sample list list \<Rightarrow> real list list \<times> int list list \<times> real list list" where
  "predict_loop ops m acc [] = acc"
| "predict_loop ops m (logit_preds, true_labels, pred_labels) (batch # bs) =
     (let b_logit_pred = model_forward ops m (map fst batch) (map (\<lambda>s. fst (snd s)) batch);
          b_pred_label = map (map sigmoid) b_logit_pred;
          b_labels = map (\<lambda>s. snd (snd s)) batch
      in predict_loop ops m
           (logit_preds @ b_logit_pred, true_labels @ b_labels, pred_labels @ b_pred_label)
           bs)"

definition threshold :: real where
  "threshold = 0.50"

text \<open>
  \<^verbatim>\<open>pred_bools = [pl>threshold for pl in pred_labels]\<close> and
  \<^verbatim>\<open>true_bools = [tl==1 for tl in true_labels]\<close>, each comparison elementwise on a row.
\<close>

definition pred_bools :: "real list list \<Rightarrow> bool list list" where
  "pred_bools pred_labels = map (\<lambda>pl. map (\<lambda>p. threshold < p) pl) pred_labels"

definition true_bools :: "int list list \<Rightarrow> bool list list" where
  "true_bools true_labels = map (\<lambda>tl. map (\<lambda>t. t = 1) tl) true_labels"

text \<open>
  The evaluation cell up to the thresholding: the network is put in evaluation mode, the
  loop runs, and the result is the pair \<open>(true_bools, pred_bools)\<close>.
\<close>

definition evaluate ::
  "'m torch_ops \<Rightarrow> 'm \<Rightarrow> sample list list \<Rightarrow> bool list list \<times> bool list list" where
  "evaluate ops m batches =
     (let gathered = predict_loop ops (model_eval ops m) ([], [], []) batches
      in (true_bools (fst (snd gathered)), pred_bools (snd (snd gathered))))"

text \<open>Column \<open>j\<close> of a list of rows.\<close>

definition column_of :: "'a list list \<Rightarrow> nat \<Rightarrow> 'a list" where
  "column_of rs j = map (\<lambda>r. r ! j) rs"

text \<open>
  Modelled from the spec: scikit-learn's \<^verbatim>\<open>accuracy_score\<close> is not part of the notebook.
  Of the two readings the spec gives for flat accuracy, this is the first, the "fraction of
  exactly-matching full label vectors", which is what the library documents for label
  matrices (subset accuracy). No samples, or a different number of rows on the two sides,
  is an error.
\<close>

definition accuracy_score :: "bool list list \<Rightarrow> bool list list \<Rightarrow> py_error + real" where
  "accuracy_score y_true y_pred =
     (if y_true = [] \<or> length y_true \<noteq> length y_pred then Inl ValueError
      else Inr (real (length (filter (\<lambda>tp. fst tp = snd tp) (zip y_true y_pred)))
                / real (length y_true)))"

text \<open>\<^verbatim>\<open>val_flat_accuracy = accuracy_score(true_bools, pred_bools)*100\<close>\<close>

definition val_flat_accuracy :: "bool list list \<Rightarrow> bool list list \<Rightarrow> py_error + real" where
  "val_flat_accuracy tb pb =
     (case accuracy_score tb pb of Inl e \<Rightarrow> Inl e | Inr a \<Rightarrow> Inr (a * 100))"

text \<open>
  The other reading, for comparison only: the fraction of the single boolean entries
  that agree.
\<close>

definition entry_accuracy :: "bool list list \<Rightarrow> bool list list \<Rightarrow> real" where
  "entry_accuracy y_true y_pred =
     real (length (filter (\<lambda>tp. fst tp = snd tp) (zip (concat y_true) (concat y_pred))))
     / real (length (concat y_true))"

text \<open>
  The 2x2 confusion matrix of one label: rows are the truth, columns the prediction,
  \<open>[[tn, fp], [fn, tp]]\<close>.
\<close>

definition count_pairs :: "bool \<Rightarrow> bool \<Rightarrow> bool list \<Rightarrow> bool list \<Rightarrow> nat" where
  "count_pairs t p ts ps = length (filter (\<lambda>tp. tp = (t, p)) (zip ts ps))"

definition confusion_matrix :: "bool list \<Rightarrow> bool list \<Rightarrow> nat list list" where
  "confusion_matrix ts ps =
     [[count_pairs False False ts ps, count_pairs False True ts ps],
      [count_pairs True False ts ps, count_pairs True True ts ps]]"

text \<open>
  Modelled from the spec: scikit-learn's \<^verbatim>\<open>multilabel_confusion_matrix\<close> is not part of the
  notebook. The spec has "a confusion matrix per label": one 2x2 matrix for each column of
  the two boolean matrices, in the order of the columns. The two matrices must have the
  same shape and at least one row.
\<close>

definition multilabel_confusion_matrix ::
  "bool list list \<Rightarrow> bool list list \<Rightarrow> py_error + nat list list list" where
  "multilabel_confusion_matrix y_true y_pred =
     (if y_true = [] \<or> length y_true \<noteq> length y_pred \<or>
         \<not> list_all (\<lambda>r. length r = length (hd y_true)) (y_true @ y_pred)
      then Inl ValueError
      else Inr (map (\<lambda>j. confusion_matrix (column_of y_true j) (column_of y_pred j))
                  [0..<length (hd y_true)]))"

text \<open>
  \<^verbatim>\<open>for label, cf in zip(label_names, multilabel_confusion_matrix(true_bools,
  pred_bools)): print(label); print(cf)\<close>: the pairs printed.
\<close>

definition confusion_report ::
  "string list \<Rightarrow> bool list list \<Rightarrow> bool list list
     \<Rightarrow> py_error + (string \<times> nat list list) list" where
  "confusion_report names tb pb =
     (case multilabel_confusion_matrix tb pb of
        Inl e \<Rightarrow> Inl e
      | Inr cms \<Rightarrow> Inr (zip names cms))"

section \<open>The notebook from top to bottom\<close>

text \<open>
  The variables of the notebook after its last cell. The cells run in order and any
  exception ends the run. The parameters are what the notebook takes from outside: the
  tokenizer picked as \<^verbatim>\<open>TOKENIZER\<close>, the permutation drawn by the split, the order of the
  training loader in each epoch, the number of devices, the torch operations and the
  pretrained network. The macro F1 score, which the evaluation cell also prints, is left
  out: no other variable depends on it.
\<close>

record 'm notebook =
  nb_label_names :: "string list"
  nb_labels :: "int tensor2"
  nb_training_dataset :: "sample list"
  nb_validation_dataset :: "sample list"
  nb_model :: 'm
  nb_train_loss :: "real list"
  nb_true_bools :: "bool list list"
  nb_pred_bools :: "bool list list"
  nb_flat_accuracy :: real
  nb_report :: "(string \<times> nat list list) list"

definition run_notebook ::
  "(string list \<Rightarrow> nat \<Rightarrow> py_error + (int tensor2 \<times> int tensor2)) \<Rightarrow> nat list \<Rightarrow>
   (nat \<Rightarrow> nat list) \<Rightarrow> nat \<Rightarrow> 'm torch_ops \<Rightarrow> 'm \<Rightarrow> dataframe \<Rightarrow> py_error + 'm notebook" where
  "run_notebook TOKENIZER randperm shuffle n_gpu ops model df =
     (case label_names df of Inl e \<Rightarrow> Inl e | Inr names \<Rightarrow>
     (case labels df names of Inl e \<Rightarrow> Inl e | Inr labs \<Rightarrow>
     (case df_text df of Inl e \<Rightarrow> Inl e | Inr strings \<Rightarrow>
     (case TOKENIZER strings 256 of Inl e \<Rightarrow> Inl e | Inr toks \<Rightarrow>
     (case tensor_dataset (fst toks) (snd toks) labs of Inl e \<Rightarrow> Inl e | Inr dataset \<Rightarrow>
     (case train_validation_split randperm dataset (fst (shape (fst toks))) of
        Inl e \<Rightarrow> Inl e | Inr split \<Rightarrow>
     (case train_dataloader (fst split) of Inl e \<Rightarrow> Inl e | Inr loader \<Rightarrow>
     (case train n_gpu ops (length names) shuffle loader model of
        Inl e \<Rightarrow> Inl e | Inr trained \<Rightarrow>
     (let bools = evaluate ops (fst trained) (val_dataloader (snd split))
      in (case val_flat_accuracy (fst bools) (snd bools) of Inl e \<Rightarrow> Inl e | Inr acc \<Rightarrow>
         (case confusion_report names (fst bools) (snd bools) of
            Inl e \<Rightarrow> Inl e
          | Inr report \<Rightarrow>
              Inr \<lparr>nb_label_names = names, nb_labels = labs,
                   nb_training_dataset = fst split, nb_validation_dataset = snd split,
                   nb_model = fst trained, nb_train_loss = snd trained,
                   nb_true_bools = fst bools, nb_pred_bools = snd bools,
                   nb_flat_accuracy = acc, nb_report = report\<rparr>)))))))))))"

section \<open>Concrete data to run the definitions on\<close>

text \<open>A table of three rows with two label columns around the text column.\<close>

definition example_df :: dataframe where
  "example_df =
     \<lparr>nrows = 3,
      cols = [(''email'', IntCol [1, 0, 0]),
              (''text'', StrCol [''a@b.c'', ''hello'', ''call 555'']),
              (''phone'', IntCol [0, 0, 1])]\<rparr>"

text \<open>A table of six rows, for a run of the whole notebook.\<close>

definition example_df6 :: dataframe where
  "example_df6 =
     \<lparr>nrows = 6,
      cols = [(''email'', IntCol [1, 0, 0, 1, 0, 1]),
              (''text'', StrCol [''a@b.c'', ''hello'', ''call 555'', ''x@y.z 77'', ''bye'', ''me@x.y'']),
              (''phone'', IntCol [0, 0, 1, 1, 0, 0])]\<rparr>"

text \<open>A table of one row, and an order for the training loader.\<close>

definition example_df1 :: dataframe where
  "example_df1 =
     \<lparr>nrows = 1,
      cols = [(''email'', IntCol [1]), (''text'', StrCol [''a@b.c'']), (''phone'', IntCol [0])]\<rparr>"

definition example_shuffle :: "nat \<Rightarrow> nat list" where
  "example_shuffle e = [1, 0, 3, 2]"

text \<open>
  A stub tokenizer for that run: every token of a row is the length of its string, every
  mask bit is set.
\<close>

definition stub_tokenizer :: "string list \<Rightarrow> nat \<Rightarrow> py_error + (int tensor2 \<times> int tensor2)" where
  "stub_tokenizer strings seq_length =
     Inr (\<lparr>shape = (length strings, seq_length),
           rows = map (\<lambda>s. replicate seq_length (int (length s))) strings\<rparr>,
          \<lparr>shape = (length strings, seq_length),
           rows = map (\<lambda>s. replicate seq_length 1) strings\<rparr>)"

text \<open>A stand-in for the vocabulary lookup: one token per character, its code.\<close>

definition char_tokens :: "string \<Rightarrow> bool \<Rightarrow> string \<Rightarrow> int list" where
  "char_tokens hash_file do_lower s = map (\<lambda>c. int (of_char c)) s"

text \<open>
  An instance of \<open>torch_ops\<close> for the concrete runs below: the state is one weight, the
  logit of a sample is the weight times the sum of its token ids, the loss tensor holds
  one difference per row, and the backward pass moves the weight by half the loss.
\<close>

definition toy_ops :: "real torch_ops" where
  "toy_ops =
     \<lparr>zero_grad = (\<lambda>m. m),
      model_forward = (\<lambda>m ids masks. map (\<lambda>r. [m * real_of_int (sum_list r)]) ids),
      loss_func = (\<lambda>lv yv. map (\<lambda>ly. sum_list (fst ly) - sum_list (snd ly)) (zip lv yv)),
      backward = (\<lambda>m loss. m - sum_list loss / 2),
      optimizer_step = (\<lambda>m. m),
      model_eval = (\<lambda>m. m)\<rparr>"

text \<open>The same network with two logits per sample, for two labels.\<close>

definition toy_ops2 :: "real torch_ops" where
  "toy_ops2 =
     toy_ops\<lparr>model_forward :=
       (\<lambda>m ids masks. map (\<lambda>r. [m * real_of_int (sum_list r), m - real_of_int (sum_list r)]) ids)\<rparr>"

chapter \<open>Properties\<close>

declare chunks.simps [simp del]

section \<open>Label extraction\<close>

lemma list_remove_mem:
  "x \<in> set xs \<Longrightarrow> list_remove xs x = Inr (remove1 x xs)"
  by (induction xs) auto

lemma list_remove_not_mem:
  "x \<notin> set xs \<Longrightarrow> list_remove xs x = Inl ValueError"
  by (induction xs) auto

lemma filter_neq_id: "x \<notin> set xs \<Longrightarrow> filter (\<lambda>y. y \<noteq> x) xs = xs"
  by (induction xs) auto

lemma remove1_filter: "distinct xs \<Longrightarrow> remove1 x xs = filter (\<lambda>y. y \<noteq> x) xs"
  by (induction xs) (auto simp: filter_neq_id)

lemma label_names_eq:
  assumes "distinct (df_columns df)" and "''text'' \<in> set (df_columns df)"
  shows "label_names df = Inr (filter (\<lambda>n. n \<noteq> ''text'') (df_columns df))"
  using assms by (simp add: label_names_def list_remove_mem remove1_filter)

text \<open>Without a column \<open>text\<close> the cell stops at \<^verbatim>\<open>label_names.remove('text')\<close>.\<close>

lemma label_names_without_text:
  "''text'' \<notin> set (df_columns df) \<Longrightarrow> label_names df = Inl ValueError"
  by (simp add: label_names_def list_remove_not_mem)

lemma length_filter_text:
  assumes "distinct xs" and "x \<in> set xs"
  shows "length (filter (\<lambda>y. y \<noteq> x) xs) = length xs - 1"
  using assms by (metis remove1_filter length_remove1)

lemma select_cols_eq:
  assumes "distinct (map fst cs)" and "set ns \<subseteq> set (map fst cs)"
  shows "select_cols cs ns = Inr (map (\<lambda>n. (n, the (map_of cs n))) ns)"
  using assms(2)
proof (induction ns)
  case Nil
  then show ?case by simp
next
  case (Cons n ns)
  then obtain c where "map_of cs n = Some c"
    by (metis list.set_intros(1) map_of_eq_None_iff not_Some_eq set_map subsetD)
  with Cons show ?case by simp
qed

lemma select_cols_filter:
  assumes "distinct (map fst cs)"
  shows "select_cols cs (filter P (map fst cs)) = Inr (filter (\<lambda>nc. P (fst nc)) cs)"
proof -
  have "select_cols cs (filter P (map fst cs))
          = Inr (map (\<lambda>n. (n, the (map_of cs n))) (filter P (map fst cs)))"
    by (rule select_cols_eq [OF assms]) auto
  moreover have "map (\<lambda>n. (n, the (map_of cs n))) (filter P (map fst cs))
                   = filter (\<lambda>nc. P (fst nc)) cs"
  proof -
    have "\<And>nc. nc \<in> set cs \<Longrightarrow> the (map_of cs (fst nc)) = snd nc"
      using assms by (metis map_of_is_SomeI option.sel prod.collapse)
    then have "map (\<lambda>nc. (fst nc, the (map_of cs (fst nc)))) (filter (\<lambda>nc. P (fst nc)) cs)
                 = filter (\<lambda>nc. P (fst nc)) cs"
      by (intro map_idI) simp
    then show ?thesis by (simp add: filter_map comp_def)
  qed
  ultimately show ?thesis by simp
qed

lemma numeric_cols_eq:
  "list_all (\<lambda>nc. is_int_col (snd nc)) cs \<Longrightarrow>
   numeric_cols cs = Inr (map (\<lambda>nc. int_values (snd nc)) cs)"
proof (induction cs)
  case Nil
  then show ?case by simp
next
  case (Cons nc cs)
  then show ?case by (cases "snd nc") auto
qed

text \<open>
  What the label cells compute on a sample table: the names, and the tensor whose entry
  in row \<open>i\<close> and column \<open>j\<close> is entry \<open>i\<close> of the table column with the \<open>j\<close>-th name.
\<close>

lemma label_column_eq:
  assumes "distinct (map fst (cols df))" and "nc \<in> set (cols df)"
  shows "label_column df (fst nc) = int_values (snd nc)"
proof -
  have "map_of (cols df) (fst nc) = Some (snd nc)"
    using assms by (simp add: map_of_is_SomeI)
  then show ?thesis by (simp add: label_column_def)
qed

lemma label_tensor:
  assumes "sample_table df"
  shows "label_names df = Inr (filter (\<lambda>n. n \<noteq> ''text'') (df_columns df))"
    and "labels df (filter (\<lambda>n. n \<noteq> ''text'') (df_columns df)) =
           Inr \<lparr>shape = (nrows df, length (filter (\<lambda>n. n \<noteq> ''text'') (df_columns df))),
                rows = map (\<lambda>i. map (\<lambda>name. label_column df name ! i)
                                   (filter (\<lambda>n. n \<noteq> ''text'') (df_columns df)))
                         [0..<nrows df]\<rparr>"
    and "length (filter (\<lambda>n. n \<noteq> ''text'') (df_columns df)) = length (df_columns df) - 1"
    and "\<And>name. name \<in> set (filter (\<lambda>n. n \<noteq> ''text'') (df_columns df)) \<Longrightarrow>
           \<exists>vs. map_of (cols df) name = Some (IntCol vs) \<and> length vs = nrows df \<and>
                label_column df name = vs"
proof -
  let ?names = "filter (\<lambda>n. n \<noteq> ''text'') (df_columns df)"
  let ?sel = "filter (\<lambda>nc. fst nc \<noteq> ''text'') (cols df)"
  let ?cs = "map (\<lambda>nc. int_values (snd nc)) ?sel"
  from assms have d: "distinct (map fst (cols df))" and tx: "''text'' \<in> set (df_columns df)"
    and num: "list_all (\<lambda>nc. fst nc = ''text'' \<or> is_int_col (snd nc)) (cols df)"
    and len: "list_all (\<lambda>nc. col_len (snd nc) = nrows df) (cols df)"
    by (simp_all add: sample_table_def valid_df_def df_columns_def)
  have nm: "?names = map fst ?sel"
    by (simp add: df_columns_def filter_map comp_def)
  show names: "label_names df = Inr ?names"
    using d tx by (simp add: label_names_eq df_columns_def)
  have sel: "df_getitem df ?names = Inr \<lparr>nrows = nrows df, cols = ?sel\<rparr>"
    using select_cols_filter [OF d, of "\<lambda>n. n \<noteq> ''text''"]
    by (simp add: df_getitem_def df_columns_def)
  have selnum: "list_all (\<lambda>nc. is_int_col (snd nc)) ?sel"
    using num by (auto simp: list_all_iff)
  have tens: "to_tensor \<lparr>nrows = nrows df, cols = ?sel\<rparr> =
      Inr \<lparr>shape = (nrows df, length ?cs), rows = map (\<lambda>i. map (\<lambda>c. c ! i) ?cs) [0..<nrows df]\<rparr>"
    by (simp add: to_tensor_def numeric_cols_eq [OF selnum])
  have row: "map (\<lambda>c. c ! i) ?cs = map (\<lambda>name. label_column df name ! i) ?names" for i
    unfolding nm using d by (simp add: comp_def label_column_eq)
  have n2: "length ?cs = length ?names"
    unfolding nm by simp
  show "labels df ?names =
           Inr \<lparr>shape = (nrows df, length ?names),
                rows = map (\<lambda>i. map (\<lambda>name. label_column df name ! i) ?names) [0..<nrows df]\<rparr>"
    unfolding labels_def sel using tens n2 row by (simp add: map_tensor_def)
  show "length ?names = length (df_columns df) - 1"
  proof (rule length_filter_text)
    show "distinct (df_columns df)" using d by (simp add: df_columns_def)
    show "''text'' \<in> set (df_columns df)" by (rule tx)
  qed
  show "\<exists>vs. map_of (cols df) name = Some (IntCol vs) \<and> length vs = nrows df \<and>
             label_column df name = vs"
    if "name \<in> set ?names" for name
  proof -
    from that obtain nc where nc: "nc \<in> set (cols df)" "fst nc \<noteq> ''text''" "name = fst nc"
      unfolding nm by auto
    have look: "map_of (cols df) name = Some (snd nc)"
      using d nc by (simp add: map_of_is_SomeI)
    have "is_int_col (snd nc)" and "col_len (snd nc) = nrows df"
      using num len nc by (auto simp: list_all_iff)
    then obtain vs where vs: "snd nc = IntCol vs" "length vs = nrows df"
      by (cases "snd nc") auto
    with look show ?thesis by (simp add: label_column_def)
  qed
qed

text \<open>
  C1. For a sample table, the label names are the column names other than \<open>text\<close>, in
  their original order, and the label tensor has one row per table row and one column per
  label name, that is (number of columns - 1) columns; column \<open>j\<close> of the tensor holds the
  values of the table column with the \<open>j\<close>-th label name.
\<close>

theorem label_extraction:
  assumes "sample_table df"
  shows "\<exists>names t.
           label_names df = Inr names \<and>
           names = filter (\<lambda>n. n \<noteq> ''text'') (df_columns df) \<and>
           labels df names = Inr t \<and>
           shape t = (nrows df, length (df_columns df) - 1) \<and>
           length (rows t) = nrows df \<and>
           list_all (\<lambda>r. length r = length (df_columns df) - 1) (rows t) \<and>
           list_all (\<lambda>j. map_of (cols df) (names ! j) = Some (IntCol (column_of (rows t) j)))
             [0..<length names]"
proof -
  let ?names = "filter (\<lambda>n. n \<noteq> ''text'') (df_columns df)"
  let ?t = "\<lparr>shape = (nrows df, length ?names),
             rows = map (\<lambda>i. map (\<lambda>name. label_column df name ! i) ?names) [0..<nrows df]\<rparr>"
  note lt = label_tensor [OF assms]
  have col: "map_of (cols df) (?names ! j) = Some (IntCol (column_of (rows ?t) j))"
    if j: "j < length ?names" for j
  proof -
    from j have "?names ! j \<in> set ?names" by (rule nth_mem)
    from lt(4) [OF this] obtain vs where
      vs: "map_of (cols df) (?names ! j) = Some (IntCol vs)" "length vs = nrows df"
        "label_column df (?names ! j) = vs"
      by blast
    have "column_of (rows ?t) j = map (\<lambda>i. vs ! i) [0..<length vs]"
      using j vs by (simp add: column_of_def)
    also have "\<dots> = vs" by (rule map_nth)
    finally show ?thesis using vs(1) by simp
  qed
  then have cols: "list_all
      (\<lambda>j. map_of (cols df) (?names ! j) = Some (IntCol (column_of (rows ?t) j)))
      [0..<length ?names]"
    by (simp add: list_all_iff)
  show ?thesis
    using lt(1) lt(2) lt(3) cols
    by (simp add: list_all_iff)
qed

theorem label_extraction_witness:
  "sample_table example_df \<and>
   label_names example_df = Inr [''email'', ''phone''] \<and>
   labels example_df [''email'', ''phone''] =
     Inr \<lparr>shape = (3, 2), rows = [[1, 0], [0, 0], [0, 1]]\<rparr>"
proof -
  have h: "sample_table example_df"
    by (simp add: sample_table_def valid_df_def df_columns_def example_df_def)
  have n: "label_names example_df = Inr [''email'', ''phone'']"
    by (simp add: label_names_def df_columns_def example_df_def)
  have l: "labels example_df [''email'', ''phone''] =
     Inr \<lparr>shape = (3, 2), rows = [[1, 0], [0, 0], [0, 1]]\<rparr>"
    by (simp add: labels_def df_getitem_def to_tensor_def map_tensor_def example_df_def upt_rec)
  from label_extraction [OF h] show ?thesis
    using h n l by simp
qed

section \<open>Tokenizer output\<close>

lemma concat_rows:
  "length xs = n * m \<Longrightarrow> concat (map (\<lambda>i. take m (drop (i * m) xs)) [0..<n]) = xs"
proof (induction n arbitrary: xs)
  case 0
  then show ?case by simp
next
  case (Suc n)
  have upt: "[0..<Suc n] = 0 # map Suc [0..<n]"
    by (simp add: upt_conv_Cons map_Suc_upt)
  have "concat (map (\<lambda>i. take m (drop (i * m) xs)) [0..<Suc n])
               = take m xs @ concat (map (\<lambda>i. take m (drop (i * m) (drop m xs))) [0..<n])"
    unfolding upt by (simp add: comp_def add.commute [of m])
  also have "\<dots> = take m xs @ drop m xs"
  proof -
    have "length (drop m xs) = n * m" using Suc.prems by simp
    then have "concat (map (\<lambda>i. take m (drop (i * m) (drop m xs))) [0..<n]) = drop m xs"
      by (rule Suc.IH)
    then show ?thesis by (simp only:)
  qed
  finally show ?case by simp
qed

lemma py_int_of_int [simp]: "py_int (real_of_int x) = x"
  by (simp add: py_int_def)

lemma to_long_tensor_ok:
  assumes "length xs = n * m"
  shows "\<exists>t. to_long_tensor xs n m = Inr t \<and> shape t = (n, m) \<and> tensor_ok t \<and>
             concat (rows t) = xs"
proof -
  let ?rows = "map (\<lambda>i. take m (drop (i * m) xs)) [0..<n]"
  have r: "reshape xs n m = Inr \<lparr>shape = (n, m), rows = ?rows\<rparr>"
    using assms by (simp add: reshape_def)
  have t: "to_long_tensor xs n m = Inr \<lparr>shape = (n, m), rows = ?rows\<rparr>"
    unfolding to_long_tensor_def r by (simp add: map_tensor_def comp_def)
  have len: "\<And>i. i < n \<Longrightarrow> length (take m (drop (i * m) xs)) = m"
  proof -
    fix i assume "i < n"
    then have "Suc i \<le> n" by simp
    then have "Suc i * m \<le> n * m" by (rule mult_le_mono1)
    then have "i * m + m \<le> length xs" using assms by (simp add: add.commute)
    then show "length (take m (drop (i * m) xs)) = m" by simp
  qed
  have ok: "tensor_ok \<lparr>shape = (n, m), rows = ?rows\<rparr>"
    using len by (simp add: tensor_ok_def list_all_iff)
  show ?thesis
    using t ok concat_rows [OF assms] by simp
qed

lemma to_long_tensor_error:
  "length xs \<noteq> n * m \<Longrightarrow> to_long_tensor xs n m = Inl ValueError"
  by (simp add: to_long_tensor_def reshape_def)

text \<open>The tokenizer of the spec gives one row of \<open>max_length\<close> entries per string.\<close>

lemma pad_truncate_length:
  "length (fst (pad_truncate n toks)) = n \<and> length (snd (pad_truncate n toks)) = n"
  by (simp add: pad_truncate_def Let_def)

lemma length_concat_const:
  "(\<And>x. x \<in> set xs \<Longrightarrow> length (f x) = n) \<Longrightarrow> length (concat (map f xs)) = length xs * n"
  by (induction xs) auto

lemma spec_subword_tokenize_length:
  "length (fst (spec_subword_tokenize wp hash_file n stride do_lower do_truncate max_rows strings))
     = length strings * n \<and>
   length (snd (spec_subword_tokenize wp hash_file n stride do_lower do_truncate max_rows strings))
     = length strings * n"
  by (simp add: spec_subword_tokenize_def Let_def comp_def length_concat_const pad_truncate_length)

text \<open>
  C3. For all strings and every sequence length: when cudf's tokenizer returns, for each
  of the two arrays, one row of \<open>seq_length\<close> entries per string (what truncation and
  padding give, whatever the lengths of the strings), both tokenizer variants return a
  tensor of token ids and a tensor of mask bits of shape (number of strings,
  \<open>seq_length\<close>), with integer elements, holding the values of the library's arrays in
  their order.
\<close>

theorem tokenizer_shapes:
  assumes "\<And>hash_file do_lower.
             length (fst (tok hash_file seq_length seq_length do_lower True
                            (length strings) strings)) = length strings * seq_length"
    and "\<And>hash_file do_lower.
             length (snd (tok hash_file seq_length seq_length do_lower True
                            (length strings) strings)) = length strings * seq_length"
  shows "(\<exists>input_ids attention_mask.
            bert_cased_tokenizer tok strings seq_length = Inr (input_ids, attention_mask) \<and>
            shape input_ids = (length strings, seq_length) \<and>
            shape attention_mask = (length strings, seq_length) \<and>
            tensor_ok input_ids \<and> tensor_ok attention_mask \<and>
            (concat (rows input_ids), concat (rows attention_mask)) =
              tok ''resources/bert-base-cased-hash.txt'' seq_length seq_length False True
                (length strings) strings) \<and>
         (\<exists>input_ids attention_mask.
            bert_uncased_tokenizer tok strings seq_length = Inr (input_ids, attention_mask) \<and>
            shape input_ids = (length strings, seq_length) \<and>
            shape attention_mask = (length strings, seq_length) \<and>
            tensor_ok input_ids \<and> tensor_ok attention_mask \<and>
            (concat (rows input_ids), concat (rows attention_mask)) =
              tok ''resources/bert-base-uncased-hash.txt'' seq_length seq_length True True
                (length strings) strings)"
proof (intro conjI)
  let ?c = "tok ''resources/bert-base-cased-hash.txt'' seq_length seq_length False True
              (length strings) strings"
  let ?u = "tok ''resources/bert-base-uncased-hash.txt'' seq_length seq_length True True
              (length strings) strings"
  from to_long_tensor_ok [OF assms(1) [of "''resources/bert-base-cased-hash.txt''" False]]
  obtain a where a: "to_long_tensor (fst ?c) (length strings) seq_length = Inr a"
    "shape a = (length strings, seq_length)" "tensor_ok a" "concat (rows a) = fst ?c"
    by blast
  from to_long_tensor_ok [OF assms(2) [of "''resources/bert-base-cased-hash.txt''" False]]
  obtain b where b: "to_long_tensor (snd ?c) (length strings) seq_length = Inr b"
    "shape b = (length strings, seq_length)" "tensor_ok b" "concat (rows b) = snd ?c"
    by blast
  show "\<exists>input_ids attention_mask.
            bert_cased_tokenizer tok strings seq_length = Inr (input_ids, attention_mask) \<and>
            shape input_ids = (length strings, seq_length) \<and>
            shape attention_mask = (length strings, seq_length) \<and>
            tensor_ok input_ids \<and> tensor_ok attention_mask \<and>
            (concat (rows input_ids), concat (rows attention_mask)) = ?c"
    using a b by (simp add: bert_cased_tokenizer_def Let_def)
  from to_long_tensor_ok [OF assms(1) [of "''resources/bert-base-uncased-hash.txt''" True]]
  obtain c where c: "to_long_tensor (fst ?u) (length strings) seq_length = Inr c"
    "shape c = (length strings, seq_length)" "tensor_ok c" "concat (rows c) = fst ?u"
    by blast
  from to_long_tensor_ok [OF assms(2) [of "''resources/bert-base-uncased-hash.txt''" True]]
  obtain d where d: "to_long_tensor (snd ?u) (length strings) seq_length = Inr d"
    "shape d = (length strings, seq_length)" "tensor_ok d" "concat (rows d) = snd ?u"
    by blast
  show "\<exists>input_ids attention_mask.
            bert_uncased_tokenizer tok strings seq_length = Inr (input_ids, attention_mask) \<and>
            shape input_ids = (length strings, seq_length) \<and>
            shape attention_mask = (length strings, seq_length) \<and>
            tensor_ok input_ids \<and> tensor_ok attention_mask \<and>
            (concat (rows input_ids), concat (rows attention_mask)) = ?u"
    using c d by (simp add: bert_uncased_tokenizer_def Let_def)
qed

theorem tokenizer_shapes_witness:
  "bert_cased_tokenizer (spec_subword_tokenize char_tokens) [''hello'', ''hi''] 3 =
     Inr (\<lparr>shape = (2, 3), rows = [[104, 101, 108], [104, 105, 0]]\<rparr>,
          \<lparr>shape = (2, 3), rows = [[1, 1, 1], [1, 1, 0]]\<rparr>) \<and>
   (\<exists>input_ids attention_mask.
      bert_uncased_tokenizer (spec_subword_tokenize char_tokens) [''hello'', ''hi''] 3 =
        Inr (input_ids, attention_mask) \<and>
      shape input_ids = (2, 3) \<and> shape attention_mask = (2, 3))"
proof -
  have v: "bert_cased_tokenizer (spec_subword_tokenize char_tokens) [''hello'', ''hi''] 3 =
     Inr (\<lparr>shape = (2, 3), rows = [[104, 101, 108], [104, 105, 0]]\<rparr>,
          \<lparr>shape = (2, 3), rows = [[1, 1, 1], [1, 1, 0]]\<rparr>)"
    by (simp add: bert_cased_tokenizer_def spec_subword_tokenize_def pad_truncate_def
        char_tokens_def to_long_tensor_def reshape_def map_tensor_def py_int_def Let_def upt_rec)
  from tokenizer_shapes [of "spec_subword_tokenize char_tokens" 3 "[''hello'', ''hi'']"]
  show ?thesis
    using v by (auto simp: spec_subword_tokenize_length numeral_2_eq_2)
qed

section \<open>Split sizes\<close>

lemma train_size_div: "train_size n = (4 * n) div 5"
proof -
  have "real n * 0.8 = real (4 * n) / real 5" by simp
  then have "\<lfloor>real n * 0.8\<rfloor> = int ((4 * n) div 5)"
    by (metis floor_divide_of_nat_eq)
  then show ?thesis by (simp add: train_size_def py_int_def)
qed

lemma train_size_le: "train_size n \<le> n"
  by (simp add: train_size_div)

lemma randperm_length: "sort p = [0..<n] \<Longrightarrow> length p = n"
  by (metis length_sort length_upt diff_zero)

lemma train_validation_split_eq:
  assumes "length randperm = length dataset"
  shows "train_validation_split randperm dataset (length dataset) =
     Inr (subset dataset (take (train_size (length dataset)) randperm),
          subset dataset (drop (train_size (length dataset)) randperm))"
  using assms train_size_le [of "length dataset"]
  by (simp add: train_validation_split_def random_split_def py_slice_def)

text \<open>
  C2. For a data set of size \<open>n\<close> and any permutation drawn by the split, the split
  returns a training subset of size \<open>int(0.8 * n)\<close> and a validation subset of size
  \<open>n - int(0.8 * n)\<close>; the two sizes add up to \<open>n\<close>.
\<close>

theorem split_sizes:
  assumes "sort randperm = [0..<length dataset]"
  shows "\<exists>training validation.
           train_validation_split randperm dataset (length dataset)
             = Inr (training, validation) \<and>
           length training = nat (py_int (real (length dataset) * 0.8)) \<and>
           length validation = length dataset - nat (py_int (real (length dataset) * 0.8)) \<and>
           length training + length validation = length dataset"
proof -
  have len: "length randperm = length dataset"
    using assms by (rule randperm_length)
  have le: "train_size (length dataset) \<le> length dataset" by (rule train_size_le)
  show ?thesis
    using len le
    by (simp add: train_validation_split_eq subset_def train_size_def min_def)
qed

theorem split_sizes_witness:
  "sort [2, 0, 4, 1, 3, 6, 5] = [0..<length ''abcdefg''] \<and>
   (\<exists>training validation.
      train_validation_split [2, 0, 4, 1, 3, 6, 5] ''abcdefg'' (length ''abcdefg'')
        = Inr (training, validation) \<and>
      length training = 5 \<and> length validation = 2)"
proof -
  have h: "sort [2, 0, 4, 1, 3, 6, 5] = [0..<length ''abcdefg'']"
    by (simp add: upt_rec)
  from split_sizes [OF h] show ?thesis
    using h by (fastforce simp: py_int_def)
qed

section \<open>Optimizer parameter groups\<close>

lemma starts_with_prefix: "starts_with n nd \<longleftrightarrow> prefix nd n"
  by (induction n nd rule: starts_with.induct) auto

lemma str_contains_sublist: "str_contains n nd \<longleftrightarrow> sublist nd n"
  by (induction n) (auto simp: starts_with_prefix sublist_Cons_right)

lemma any_no_decay_iff:
  "any_no_decay n \<longleftrightarrow> sublist ''bias'' n \<or> sublist ''gamma'' n \<or> sublist ''beta'' n"
  by (simp add: any_no_decay_def no_decay_def str_contains_sublist)

lemma filter_params:
  "[p. (n, p) \<leftarrow> ps, P n] = map snd (filter (\<lambda>np. P (fst np)) ps)"
  by (induction ps) auto

lemma mset_map_partition:
  "mset (map f (filter (\<lambda>x. \<not> P x) xs)) + mset (map f (filter P xs)) = mset (map f xs)"
  by (induction xs) auto

text \<open>
  C7. The grouping gives exactly two groups. The second holds the parameters whose name
  contains \<open>bias\<close>, \<open>gamma\<close> or \<open>beta\<close> as a substring and carries the rate 0.0; the
  first holds all the others and carries the rate 0.01. Together the two groups hold every
  parameter once, and no parameter is in both.
\<close>

theorem optimizer_groups:
  "\<exists>decay exempt.
     optimizer_grouped_parameters ps = [decay, exempt] \<and>
     weight_decay_rate decay = 0.01 \<and>
     weight_decay_rate exempt = 0.0 \<and>
     params exempt =
       map snd (filter (\<lambda>np. sublist ''bias'' (fst np) \<or> sublist ''gamma'' (fst np) \<or>
                             sublist ''beta'' (fst np)) ps) \<and>
     params decay =
       map snd (filter (\<lambda>np. \<not> (sublist ''bias'' (fst np) \<or> sublist ''gamma'' (fst np) \<or>
                                sublist ''beta'' (fst np))) ps) \<and>
     mset (params decay) + mset (params exempt) = mset (map snd ps) \<and>
     (distinct (map snd ps) \<longrightarrow> set (params decay) \<inter> set (params exempt) = {})"
proof -
  let ?P = "\<lambda>np. sublist ''bias'' (fst np) \<or> sublist ''gamma'' (fst np) \<or>
                  sublist ''beta'' (fst np)"
  have ex: "[p. (n, p) \<leftarrow> ps, any_no_decay n] = map snd (filter ?P ps)"
    by (simp add: filter_params any_no_decay_iff)
  have de: "[p. (n, p) \<leftarrow> ps, \<not> any_no_decay n] = map snd (filter (\<lambda>np. \<not> ?P np) ps)"
    by (simp add: filter_params any_no_decay_iff)
  have part: "mset (map snd (filter (\<lambda>np. \<not> ?P np) ps)) + mset (map snd (filter ?P ps))
                = mset (map snd ps)"
    by (rule mset_map_partition)
  have disj: "set (map snd (filter (\<lambda>np. \<not> ?P np) ps)) \<inter> set (map snd (filter ?P ps)) = {}"
    if "distinct (map snd ps)"
  proof -
    from that have inj: "inj_on snd (set ps)" by (simp add: distinct_map)
    show ?thesis
    proof (rule ccontr)
      assume "\<not> ?thesis"
      then obtain p where "p \<in> set (map snd (filter (\<lambda>np. \<not> ?P np) ps))"
        and "p \<in> set (map snd (filter ?P ps))" by blast
      then obtain a b where a: "a \<in> set ps" "\<not> ?P a" "snd a = p"
        and b: "b \<in> set ps" "?P b" "snd b = p" by auto
      from inj a(1) b(1) a(3) b(3) have "a = b" by (simp add: inj_on_def)
      with a(2) b(2) show False by simp
    qed
  qed
  show ?thesis
    unfolding optimizer_grouped_parameters_def ex de
    using part disj by simp
qed

theorem optimizer_groups_witness:
  "distinct (map snd [(''encoder.weight'', 0::nat), (''encoder.bias'', 1),
      (''LayerNorm.gamma'', 2), (''LayerNorm.beta'', 3), (''classifier.weight'', 4)]) \<and>
   optimizer_grouped_parameters [(''encoder.weight'', 0::nat), (''encoder.bias'', 1),
      (''LayerNorm.gamma'', 2), (''LayerNorm.beta'', 3), (''classifier.weight'', 4)] =
     [\<lparr>params = [0, 4], weight_decay_rate = 0.01\<rparr>,
      \<lparr>params = [1, 2, 3], weight_decay_rate = 0\<rparr>]"
  using optimizer_groups [of "[(''encoder.weight'', 0::nat), (''encoder.bias'', 1),
      (''LayerNorm.gamma'', 2), (''LayerNorm.beta'', 3), (''classifier.weight'', 4)]"]
  by (simp add: optimizer_grouped_parameters_def any_no_decay_def no_decay_def)

section \<open>The training loop\<close>

lemma train_steps_losses:
  "batch_losses n_gpu ops nl m bs = Inr xs \<Longrightarrow>
   \<exists>m'. train_steps n_gpu ops nl (m, t, e, s) bs =
          Inr (m', t + sum_list xs, e + sum_list (map length bs), s + length bs) \<and>
        length xs = length bs"
proof (induction bs arbitrary: m t e s xs)
  case Nil
  then show ?case by simp
next
  case (Cons b bs)
  from Cons.prems obtain m1 x xs' where
    b: "train_batch n_gpu ops nl m b = Inr (m1, x)" and
    r: "batch_losses n_gpu ops nl m1 bs = Inr xs'" and
    xs: "xs = x # xs'"
    by (auto split: sum.splits)
  from Cons.IH [OF r, of "t + x" "e + length b" "s + 1"] obtain m' where
    "train_steps n_gpu ops nl (m1, t + x, e + length b, s + 1) bs =
       Inr (m', t + x + sum_list xs', e + length b + sum_list (map length bs), s + 1 + length bs)"
    "length xs' = length bs"
    by blast
  with b xs show ?case by (simp add: add.assoc)
qed

lemma train_steps_error:
  "batch_losses n_gpu ops nl m bs = Inl err \<Longrightarrow>
   train_steps n_gpu ops nl (m, t, e, s) bs = Inl err"
proof (induction bs arbitrary: m t e s)
  case Nil
  then show ?case by simp
next
  case (Cons b bs)
  then show ?case by (auto split: sum.splits)
qed

text \<open>
  C6. In an epoch with at least one batch: when every step of the epoch goes through,
  the value reported is the sum of the per-batch values of \<^verbatim>\<open>loss.item()\<close> divided by the
  number of batches; when a step fails, the epoch fails with the same error.
\<close>

theorem epoch_report_mean:
  assumes "batches \<noteq> []"
  shows "case batch_losses n_gpu ops num_labels m batches of
           Inl err \<Rightarrow> train_epoch n_gpu ops num_labels m batches = Inl err
         | Inr xs \<Rightarrow>
             length xs = length batches \<and>
             (\<exists>m'. train_epoch n_gpu ops num_labels m batches =
                     Inr (m', sum_list xs / real (length batches)))"
proof (cases "batch_losses n_gpu ops num_labels m batches")
  case (Inl err)
  then show ?thesis
    by (simp add: train_epoch_def train_steps_error)
next
  case (Inr xs)
  from train_steps_losses [OF Inr, of 0 0 0] obtain m' where
    "train_steps n_gpu ops num_labels (m, 0, 0, 0) batches =
       Inr (m', sum_list xs, sum_list (map length batches), length batches)"
    "length xs = length batches"
    by auto
  with assms Inr show ?thesis
    by (simp add: train_epoch_def py_truediv_def)
qed

theorem epoch_report_mean_witness:
  "[[([1, 2], [1, 1], [1])], [([3], [1], [0])]] \<noteq> ([] :: sample list list) \<and>
   (\<exists>m'. train_epoch 1 toy_ops 1 2 [[([1, 2], [1, 1], [1])], [([3], [1], [0])]] =
      Inr (m', (5 + (- 3 / 2)) / 2))"
  using epoch_report_mean [of "[[([1, 2], [1, 1], [1])], [([3], [1], [0])]]" 1 toy_ops 1 2]
  by (simp add: train_batch_def toy_ops_def view_def chunks.simps)

text \<open>
  C8. For a batch whose loss tensor is not empty: with more than one device the
  backward pass takes the mean of the elements of the loss tensor, and the step returns that
  mean; with at most one device the backward pass takes the loss tensor as it is (and
  refuses one of several elements).
\<close>

theorem loss_mean_before_backward:
  assumes "view (model_forward ops (zero_grad ops m) (map fst batch)
                   (map (\<lambda>s. fst (snd s)) batch)) num_labels = Inr lv"
    and "view (map (map real_of_int) (map (\<lambda>s. snd (snd s)) batch)) num_labels = Inr yv"
    and "loss_func ops lv yv = loss"
    and "loss \<noteq> []"
  shows "(1 < n_gpu \<longrightarrow>
            train_batch n_gpu ops num_labels m batch =
              Inr (optimizer_step ops
                     (backward ops (zero_grad ops m) [sum_list loss / real (length loss)]),
                   sum_list loss / real (length loss))) \<and>
         (n_gpu \<le> 1 \<longrightarrow>
            (case loss of
               [x] \<Rightarrow> train_batch n_gpu ops num_labels m batch =
                        Inr (optimizer_step ops (backward ops (zero_grad ops m) loss), x)
             | _ \<Rightarrow> train_batch n_gpu ops num_labels m batch = Inl RuntimeError))"
  using assms
  by (auto simp: train_batch_def tensor_mean_def Let_def split: list.splits)

theorem loss_mean_before_backward_witness:
  "train_batch 2 toy_ops 1 2 [([1, 2], [1, 1], [1]), ([2, 2], [1, 1], [0])] =
     Inr (2 - ((5 + 8) / 2) / 2, (5 + 8) / 2) \<and>
   train_batch 1 toy_ops 1 2 [([1, 2], [1, 1], [1]), ([2, 2], [1, 1], [0])] = Inl RuntimeError \<and>
   train_batch 1 toy_ops 1 2 [([1, 2], [1, 1], [1])] = Inr (2 - 5 / 2, 5)"
proof -
  let ?b2 = "[([1, 2], [1, 1], [1]), ([2, 2], [1, 1], [0])] :: sample list"
  let ?b1 = "[([1, 2], [1, 1], [1])] :: sample list"
  have v2: "view (model_forward toy_ops (zero_grad toy_ops 2) (map fst ?b2)
                   (map (\<lambda>s. fst (snd s)) ?b2)) 1 = Inr [[6], [8]]"
    by (simp add: toy_ops_def view_def chunks.simps)
  have y2: "view (map (map real_of_int) (map (\<lambda>s. snd (snd s)) ?b2)) 1 = Inr [[1], [0]]"
    by (simp add: view_def chunks.simps)
  have l2: "loss_func toy_ops [[6], [8]] [[1], [0]] = [5, 8]"
    by (simp add: toy_ops_def)
  have v1: "view (model_forward toy_ops (zero_grad toy_ops 2) (map fst ?b1)
                   (map (\<lambda>s. fst (snd s)) ?b1)) 1 = Inr [[6]]"
    by (simp add: toy_ops_def view_def chunks.simps)
  have y1: "view (map (map real_of_int) (map (\<lambda>s. snd (snd s)) ?b1)) 1 = Inr [[1]]"
    by (simp add: view_def chunks.simps)
  have l1: "loss_func toy_ops [[6]] [[1]] = [5]"
    by (simp add: toy_ops_def)
  have ne2: "[5, 8] \<noteq> ([] :: real list)" and ne1: "[5] \<noteq> ([] :: real list)" by simp_all
  from loss_mean_before_backward [OF v2 y2 l2 ne2, of 2]
       loss_mean_before_backward [OF v2 y2 l2 ne2, of 1]
       loss_mean_before_backward [OF v1 y1 l1 ne1, of 1]
  show ?thesis by (simp add: toy_ops_def)
qed

section \<open>The division at the end of an epoch\<close>

lemma chunks_Nil [simp]: "chunks k [] = []"
  by (simp add: chunks.simps)

lemma chunks_eq_Nil: "chunks k xs = [] \<longleftrightarrow> k = 0 \<or> xs = []"
  by (subst chunks.simps) simp

lemma train_batch_error: "train_batch n_gpu ops nl m b = Inl err \<Longrightarrow> err = RuntimeError"
  by (auto simp: train_batch_def view_def Let_def split: sum.splits list.splits if_splits)

lemma train_steps_error_kind:
  "train_steps n_gpu ops nl st bs = Inl err \<Longrightarrow> err = RuntimeError"
proof (induction bs arbitrary: st)
  case Nil
  then show ?case by simp
next
  case (Cons b bs)
  obtain m t e s where st: "st = (m, t, e, s)" by (cases st) auto
  from Cons.prems show ?case unfolding st
    by (auto split: sum.splits dest: train_batch_error Cons.IH)
qed

lemma train_steps_count:
  "train_steps n_gpu ops nl (m, t, e, s) bs = Inr (m', t', e', s') \<Longrightarrow> s' = s + length bs"
proof (induction bs arbitrary: m t e s)
  case Nil
  then show ?case by simp
next
  case (Cons b bs)
  then show ?case by (fastforce split: sum.splits)
qed

lemma train_epoch_no_batches:
  "train_epoch n_gpu ops nl m [] = Inl ZeroDivisionError"
  by (simp add: train_epoch_def py_truediv_def)

lemma train_epoch_some_batches:
  assumes "bs \<noteq> []"
  shows "train_epoch n_gpu ops nl m bs \<noteq> Inl ZeroDivisionError"
proof (cases "train_steps n_gpu ops nl (m, 0, 0, 0) bs")
  case (Inl err)
  then have "err = RuntimeError" by (rule train_steps_error_kind)
  with Inl show ?thesis by (simp add: train_epoch_def)
next
  case (Inr st)
  obtain m' t' e' s' where st: "st = (m', t', e', s')" by (cases st) auto
  from Inr train_steps_count [of n_gpu ops nl m 0 0 0 bs m' t' e' s'] st
  have "s' = length bs" by simp
  with assms Inr st show ?thesis
    by (simp add: train_epoch_def py_truediv_def)
qed

lemma train_dataloader_built:
  "train_dataloader ds = (if ds = [] then Inl ValueError else Inr ds)"
  by (simp add: train_dataloader_def)

text \<open>
  C10, as stated, fails on a table of one row: the training subset is empty, and the run
  ends with \<^verbatim>\<open>ValueError\<close> when the training loader is built, before the training loop and
  its division are reached.
\<close>

theorem epoch_division_counterexample:
  "train_size 1 = 0 \<and>
   run_notebook stub_tokenizer [0] example_shuffle 1 toy_ops2 (1 / 1000) example_df1
     = Inl ValueError \<and>
   run_notebook stub_tokenizer [0] example_shuffle 1 toy_ops2 (1 / 1000) example_df1
     \<noteq> Inl ZeroDivisionError"
proof -
  have one: "train_size 1 = 0"
    by (simp add: train_size_div)
  have n: "label_names example_df1 = Inr [''email'', ''phone'']"
    by (simp add: label_names_def df_columns_def example_df1_def)
  have l: "labels example_df1 [''email'', ''phone''] = Inr \<lparr>shape = (1, 2), rows = [[1, 0]]\<rparr>"
    by (simp add: labels_def df_getitem_def to_tensor_def map_tensor_def example_df1_def)
  have s: "df_text example_df1 = Inr [''a@b.c'']"
    by (simp add: df_text_def example_df1_def)
  have t: "stub_tokenizer [''a@b.c''] 256 =
      Inr (\<lparr>shape = (1, 256), rows = [replicate 256 5]\<rparr>,
           \<lparr>shape = (1, 256), rows = [replicate 256 1]\<rparr>)"
    by (simp add: stub_tokenizer_def)
  have d: "tensor_dataset \<lparr>shape = (1, 256), rows = [replicate 256 5]\<rparr>
      \<lparr>shape = (1, 256), rows = [replicate 256 1]\<rparr> \<lparr>shape = (1, 2), rows = [[1, 0]]\<rparr> =
      Inr [(replicate 256 5, replicate 256 1, [1, 0])]"
    by (simp add: tensor_dataset_def)
  have sp: "train_validation_split [0] [(replicate 256 5, replicate 256 1, [1, 0])] 1 =
      Inr ([], [(replicate 256 (5 :: int), replicate 256 (1 :: int), [1, 0 :: int])])"
    by (simp add: train_validation_split_def random_split_def py_slice_def subset_def
        train_size_def py_int_def)
  have run: "run_notebook stub_tokenizer [0] example_shuffle 1 toy_ops2 (1 / 1000) example_df1
     = Inl ValueError"
    unfolding run_notebook_def n sum.case l s t fst_conv snd_conv d tensor2.simps sp
    by (simp add: train_dataloader_def)
  from one run show ?thesis by simp
qed

text \<open>
  C10, amended. The epoch report divides by the number of batches without a guard. For a
  data set of size \<open>n\<close>, split as the notebook does: if \<open>int(0.8 * n) \<ge> 1\<close>, the training
  loader is built and yields at least one batch, and the epoch does not end in a division
  by zero; if \<open>int(0.8 * n) = 0\<close> (as for \<open>n = 1\<close>), building the training loader raises
  \<^verbatim>\<open>ValueError\<close>, so the training loop is not reached. The report itself raises
  \<^verbatim>\<open>ZeroDivisionError\<close> when an epoch has no batch.
\<close>

theorem epoch_division_unguarded:
  fixes dataset :: "sample list"
  assumes "sort randperm = [0..<length dataset]"
    and "train_validation_split randperm dataset (length dataset) = Inr (training, validation)"
    and "sort order = [0..<length training]"
  shows "(1 \<le> nat (py_int (real (length dataset) * 0.8)) \<longrightarrow>
            train_dataloader training = Inr training \<and>
            train_batches training order \<noteq> [] \<and>
            train_epoch n_gpu ops num_labels m (train_batches training order)
              \<noteq> Inl ZeroDivisionError) \<and>
         (nat (py_int (real (length dataset) * 0.8)) = 0 \<longrightarrow>
            train_dataloader training = Inl ValueError) \<and>
         train_epoch n_gpu ops num_labels m [] = Inl ZeroDivisionError \<and>
         train_size 1 = 0"
proof -
  have len: "length randperm = length dataset"
    using assms(1) by (rule randperm_length)
  have tr: "length training = train_size (length dataset)"
    using assms(2) len train_size_le [of "length dataset"]
    by (auto simp: train_validation_split_eq subset_def)
  have ord: "length order = length training"
    using assms(3) by (rule randperm_length)
  have batches: "train_batches training order = [] \<longleftrightarrow> train_size (length dataset) = 0"
  proof -
    have "order = [] \<longleftrightarrow> length order = 0" by simp
    then show ?thesis
      using tr ord
      by (simp add: train_batches_def data_loader_def chunks_eq_Nil subset_def
          del: length_0_conv)
  qed
  have empty: "training = [] \<longleftrightarrow> train_size (length dataset) = 0"
  proof -
    have "training = [] \<longleftrightarrow> length training = 0" by simp
    then show ?thesis using tr by (simp del: length_0_conv)
  qed
  have ts: "nat (py_int (real (length dataset) * 0.8)) = train_size (length dataset)"
    by (simp add: train_size_def)
  have one: "train_size 1 = 0"
    by (simp add: train_size_div)
  show ?thesis
    unfolding ts
    using batches empty one
      train_epoch_some_batches [of "train_batches training order" n_gpu ops num_labels m]
    by (auto simp: train_epoch_no_batches train_dataloader_built)
qed

theorem epoch_division_unguarded_witness:
  "train_dataloader ([] :: sample list) = Inl ValueError \<and>
   train_epoch 1 toy_ops 1 2 [] = Inl ZeroDivisionError \<and>
   train_epoch 2 toy_ops 1 2
     (train_batches [([4], [1], [0]), ([2], [1], [0]), ([1], [1], [1]), ([5], [1], [1])]
        [1, 0, 3, 2]) \<noteq> Inl ZeroDivisionError"
proof -
  let ?d1 = "[([1, 2], [1, 1], [1])] :: sample list"
  let ?d5 = "[([1], [1], [1]), ([2], [1], [0]), ([3], [1], [1]), ([4], [1], [0]),
              ([5], [1], [1])] :: sample list"
  let ?t5 = "[([4], [1], [0]), ([2], [1], [0]), ([1], [1], [1]), ([5], [1], [1])] :: sample list"
  have p1: "sort [0] = [0..<length ?d1]" by simp
  have s1: "train_validation_split [0] ?d1 (length ?d1) = Inr ([], ?d1)"
    by (simp add: train_validation_split_def random_split_def py_slice_def subset_def
        train_size_def py_int_def)
  have o1: "sort [] = [0..<length ([] :: sample list)]" by simp
  have p5: "sort [3, 1, 0, 4, 2] = [0..<length ?d5]" by (simp add: upt_rec)
  have s5: "train_validation_split [3, 1, 0, 4, 2] ?d5 (length ?d5) = Inr (?t5, [([3], [1], [1])])"
    by (simp add: train_validation_split_def random_split_def py_slice_def subset_def
        train_size_def py_int_def)
  have o5: "sort [1, 0, 3, 2] = [0..<length ?t5]" by (simp add: upt_rec)
  from epoch_division_unguarded [OF p1 s1 o1, of 1 toy_ops 1 2]
       epoch_division_unguarded [OF p5 s5 o5, of 2 toy_ops 1 2]
  show ?thesis by (simp add: py_int_def)
qed

section \<open>Evaluation\<close>

lemma predict_loop_eq:
  "predict_loop ops m (ls, ts, ps) bs =
     (ls @ concat (map (\<lambda>b. model_forward ops m (map fst b) (map (\<lambda>s. fst (snd s)) b)) bs),
      ts @ concat (map (\<lambda>b. map (\<lambda>s. snd (snd s)) b) bs),
      ps @ concat (map (\<lambda>b. map (map sigmoid)
                               (model_forward ops m (map fst b) (map (\<lambda>s. fst (snd s)) b))) bs))"
  by (induction bs arbitrary: ls ts ps) (simp_all add: Let_def)

lemma evaluate_eq:
  "evaluate ops m batches =
     (map (map (\<lambda>t. t = 1)) (concat (map (map (\<lambda>s. snd (snd s))) batches)),
      map (map (\<lambda>x. 0.5 < sigmoid x))
        (concat (map (\<lambda>b. model_forward ops (model_eval ops m) (map fst b)
                             (map (\<lambda>s. fst (snd s)) b)) batches)))"
  by (simp add: evaluate_def predict_loop_eq true_bools_def pred_bools_def threshold_def
      map_concat comp_def)

text \<open>
  C4. Over all validation batches, the boolean predictions are the entries of the
  sigmoid of the logits compared with the threshold 0.5 (true when strictly greater), and
  the boolean truths are the entries of the label rows compared with 1, sample by sample
  and label by label.
\<close>

theorem evaluator_booleans:
  "evaluate ops m batches =
     (map (\<lambda>row. map (\<lambda>label. label = 1) row)
        (concat (map (\<lambda>batch. map (\<lambda>s. snd (snd s)) batch) batches)),
      map (\<lambda>row. map (\<lambda>logit. 0.5 < sigmoid logit) row)
        (concat (map (\<lambda>batch. model_forward ops (model_eval ops m) (map fst batch)
                                 (map (\<lambda>s. fst (snd s)) batch)) batches)))"
  by (rule evaluate_eq)

lemma zip_nth_upt:
  "length xs = length ys \<Longrightarrow> zip xs ys = map (\<lambda>i. (xs ! i, ys ! i)) [0..<length xs]"
  by (rule nth_equalityI) simp_all

lemma count_matching:
  assumes "length xs = length ys"
  shows "length (filter (\<lambda>tp. fst tp = snd tp) (zip xs ys))
           = length (filter (\<lambda>i. xs ! i = ys ! i) [0..<length xs])"
  by (simp add: zip_nth_upt [OF assms] filter_map comp_def)

text \<open>
  C5. For a non-empty validation set, the flat accuracy is the number of samples whose
  whole predicted boolean row equals the whole true boolean row, divided by the number of
  samples, times 100. (In the example that follows, one of two rows matches and three of
  four entries match: the flat accuracy is 50, the share of matching entries 75.)
\<close>

theorem flat_accuracy_exact_match:
  assumes "tb \<noteq> []" and "length tb = length pb"
  shows "val_flat_accuracy tb pb =
           Inr (real (length (filter (\<lambda>i. tb ! i = pb ! i) [0..<length tb]))
                / real (length tb) * 100)"
  using assms by (simp add: val_flat_accuracy_def accuracy_score_def count_matching)

theorem flat_accuracy_exact_match_witness:
  "val_flat_accuracy [[True, False], [False, False]] [[True, True], [False, False]] = Inr 50 \<and>
   entry_accuracy [[True, False], [False, False]] [[True, True], [False, False]] * 100 = 75"
proof -
  have ne: "[[True, False], [False, False]] \<noteq> []" by simp
  have len: "length [[True, False], [False, False]] = length [[True, True], [False, False]]"
    by simp
  from flat_accuracy_exact_match [OF ne len] show ?thesis
    by (simp add: entry_accuracy_def upt_rec)
qed

section \<open>Training goes through on several devices\<close>

text \<open>
  With more than one device the loss is reduced to one element, so a batch whose logits and
  labels can be viewed in rows of \<open>num_labels\<close> never fails; then neither does the epoch,
  nor the loop over the epochs.
\<close>

lemma train_batch_mean:
  assumes "1 < n_gpu"
    and "\<exists>lv. view (model_forward ops (zero_grad ops m) (map fst batch)
                      (map (\<lambda>s. fst (snd s)) batch)) nl = Inr lv"
    and "\<exists>yv. view (map (map real_of_int) (map (\<lambda>s. snd (snd s)) batch)) nl = Inr yv"
  shows "\<exists>mx. train_batch n_gpu ops nl m batch = Inr mx"
  using assms by (auto simp: train_batch_def tensor_mean_def Let_def)

lemma train_steps_total:
  assumes "\<And>m b. b \<in> set bs \<Longrightarrow> \<exists>mx. train_batch n_gpu ops nl m b = Inr mx"
  shows "\<exists>st'. train_steps n_gpu ops nl st bs = Inr st'"
  using assms
proof (induction bs arbitrary: st)
  case Nil
  show ?case by (rule exI) simp
next
  case (Cons b bs)
  obtain m t e s where st: "st = (m, t, e, s)" by (rule prod_cases4)
  from Cons.prems [of b m] obtain mx where "train_batch n_gpu ops nl m b = Inr mx" by auto
  moreover have "\<exists>st'. train_steps n_gpu ops nl
                       (fst mx, t + snd mx, e + length b, s + 1) bs = Inr st'"
  proof (rule Cons.IH)
    fix m' b'
    assume "b' \<in> set bs"
    then have "b' \<in> set (b # bs)" by simp
    then show "\<exists>mx. train_batch n_gpu ops nl m' b' = Inr mx" by (rule Cons.prems)
  qed
  ultimately show ?case unfolding st by simp
qed

lemma train_epoch_total:
  assumes "\<And>m b. b \<in> set bs \<Longrightarrow> \<exists>mx. train_batch n_gpu ops nl m b = Inr mx"
    and "bs \<noteq> []"
  shows "\<exists>r. train_epoch n_gpu ops nl m bs = Inr r"
proof -
  from train_steps_total [OF assms(1)] obtain st where
    st: "train_steps n_gpu ops nl (m, 0, 0, 0) bs = Inr st" by blast
  obtain m' t' e' s' where q: "st = (m', t', e', s')" by (cases st) auto
  from st train_steps_count [of n_gpu ops nl m 0 0 0 bs m' t' e' s'] q
  have "s' = length bs" by simp
  with assms(2) st q show ?thesis
    by (simp add: train_epoch_def py_truediv_def)
qed

lemma train_loop_total:
  assumes "\<And>e m. \<exists>r. train_epoch n_gpu ops nl m (train_batches tr (shuffle e)) = Inr r"
  shows "\<exists>res. train_loop k e n_gpu ops nl shuffle tr m out = Inr res"
proof (induction k arbitrary: e m out)
  case 0
  show ?case by simp
next
  case (Suc k)
  from assms obtain r where "train_epoch n_gpu ops nl m (train_batches tr (shuffle e)) = Inr r"
    by blast
  with Suc show ?case by simp
qed

section \<open>The label index from extraction to the confusion matrices\<close>

lemma concat_chunks: "0 < k \<Longrightarrow> concat (chunks k xs) = xs"
proof (induction k xs rule: chunks.induct)
  case (1 k xs)
  show ?case
  proof (cases "xs = []")
    case True
    then show ?thesis by (simp add: chunks.simps)
  next
    case False
    with 1 have "concat (chunks k (drop k xs)) = drop k xs" by simp
    with False 1(2) show ?thesis by (subst chunks.simps) simp
  qed
qed

lemma concat_val_dataloader: "concat (val_dataloader xs) = xs"
  by (simp add: val_dataloader_def data_loader_def subset_def map_nth concat_chunks)

text \<open>Over the real numbers, the threshold on the probability is the sign of the logit.\<close>

lemma sigmoid_gt_half: "0.5 < sigmoid x \<longleftrightarrow> 0 < x"
proof -
  have pos: "0 < 1 + exp (- x)" by (simp add: add_pos_pos)
  have "0.5 < sigmoid x \<longleftrightarrow> 1 + exp (- x) < 2"
    using pos by (simp add: sigmoid_def field_simps)
  also have "\<dots> \<longleftrightarrow> 0 < x" by simp
  finally show ?thesis .
qed

lemma tensor_dataset_nth:
  assumes "tensor_dataset a b c = Inr dataset" and "r < length dataset"
  shows "snd (snd (dataset ! r)) = rows c ! r"
  using assms by (auto simp: tensor_dataset_def split: if_splits)

lemma split_validation:
  assumes "train_validation_split randperm dataset n = Inr split"
    and "length randperm = n"
  shows "length dataset = n" and "snd split = subset dataset (drop (train_size n) randperm)"
proof -
  from assms(1) show len: "length dataset = n"
    using train_size_le [of n]
    by (auto simp: train_validation_split_def random_split_def split: if_splits)
  with assms(2) have "length randperm = length dataset" by simp
  from train_validation_split_eq [OF this] assms(1) len
  show "snd split = subset dataset (drop (train_size n) randperm)" by auto
qed

lemma confusion_report_nth:
  assumes "confusion_report names tb pb = Inr report"
  shows "tb \<noteq> []"
    and "list_all (\<lambda>r. length r = length (hd tb)) (tb @ pb)"
    and "report = zip names (map (\<lambda>j. confusion_matrix (column_of tb j) (column_of pb j))
                                [0..<length (hd tb)])"
  using assms
  by (auto simp: confusion_report_def multilabel_confusion_matrix_def
      split: sum.splits if_splits)

text \<open>
  C9. For a sample table and a run of the notebook that reaches its end: the label names
  are the columns other than \<open>text\<close> in table order; the report has one entry per label
  name; and for every index \<open>i\<close>, entry \<open>i\<close> of the report pairs the \<open>i\<close>-th label name with
  the confusion matrix of column \<open>i\<close> of the true and of the predicted booleans, column
  \<open>i\<close> of the true booleans is the table column with the \<open>i\<close>-th label name, read at the
  rows of the validation subset and compared with 1, and column \<open>i\<close> of the predicted
  booleans is the \<open>i\<close>-th logit of the validation samples through sigmoid and threshold.
\<close>

theorem label_index_consistent:
  assumes tab: "sample_table df"
    and perm: "sort randperm = [0..<nrows df]"
    and run: "run_notebook TOKENIZER randperm shuffle n_gpu ops model df = Inr nb"
  shows "nb_label_names nb = filter (\<lambda>n. n \<noteq> ''text'') (df_columns df) \<and>
         length (nb_report nb) = length (nb_label_names nb) \<and>
         list_all
           (\<lambda>i. nb_report nb ! i =
                  (nb_label_names nb ! i,
                   confusion_matrix (column_of (nb_true_bools nb) i)
                     (column_of (nb_pred_bools nb) i)) \<and>
                column_of (nb_true_bools nb) i =
                  map (\<lambda>r. label_column df (nb_label_names nb ! i) ! r = 1)
                    (drop (train_size (nrows df)) randperm) \<and>
                column_of (nb_pred_bools nb) i =
                  map (\<lambda>logits. 0.5 < sigmoid (logits ! i))
                    (concat (map (\<lambda>batch. model_forward ops (model_eval ops (nb_model nb))
                                             (map fst batch) (map (\<lambda>s. fst (snd s)) batch))
                               (val_dataloader (nb_validation_dataset nb)))))
           [0..<length (nb_label_names nb)]"
proof -
  let ?names = "filter (\<lambda>n. n \<noteq> ''text'') (df_columns df)"
  let ?n = "nrows df"
  let ?idx = "drop (train_size ?n) randperm"
  note lt = label_tensor [OF tab]
  from run lt(1) obtain labs strings toks dataset split trained acc report where
    labs: "labels df ?names = Inr labs" and
    ds: "tensor_dataset (fst toks) (snd toks) labs = Inr dataset" and
    sp: "train_validation_split randperm dataset (fst (shape (fst toks))) = Inr split" and
    rp: "confusion_report ?names
           (fst (evaluate ops (fst trained) (val_dataloader (snd split))))
           (snd (evaluate ops (fst trained) (val_dataloader (snd split)))) = Inr report" and
    nb: "nb = \<lparr>nb_label_names = ?names, nb_labels = labs,
                   nb_training_dataset = fst split, nb_validation_dataset = snd split,
                   nb_model = fst trained, nb_train_loss = snd trained,
                   nb_true_bools = fst (evaluate ops (fst trained) (val_dataloader (snd split))),
                   nb_pred_bools = snd (evaluate ops (fst trained) (val_dataloader (snd split))),
                   nb_flat_accuracy = acc, nb_report = report\<rparr>"
    by (auto simp: run_notebook_def Let_def split: sum.splits)
  let ?tb = "fst (evaluate ops (fst trained) (val_dataloader (snd split)))"
  let ?pb = "snd (evaluate ops (fst trained) (val_dataloader (snd split)))"
  let ?logits = "concat (map (\<lambda>batch. model_forward ops (model_eval ops (fst trained))
                                             (map fst batch) (map (\<lambda>s. fst (snd s)) batch))
                               (val_dataloader (snd split)))"
  have rows: "rows labs = map (\<lambda>i. map (\<lambda>name. label_column df name ! i) ?names) [0..<?n]"
    and shp: "fst (shape labs) = ?n"
    using labs lt(2) by auto
  have n_eq: "fst (shape (fst toks)) = ?n"
    using ds shp by (auto simp: tensor_dataset_def split: if_splits)
  have plen: "length randperm = ?n"
    using perm by (rule randperm_length)
  have dlen: "length dataset = ?n" and val: "snd split = subset dataset ?idx"
    using split_validation [OF sp] plen n_eq by simp_all
  have idx_lt: "r < ?n" if "r \<in> set ?idx" for r
  proof -
    from that have "r \<in> set randperm" by (rule in_set_dropD)
    then have "r \<in> set (sort randperm)" by simp
    then show ?thesis unfolding perm by simp
  qed
  have true_rows: "map (\<lambda>s. snd (snd s)) (snd split)
                     = map (\<lambda>r. map (\<lambda>name. label_column df name ! r) ?names) ?idx"
  proof -
    have "snd (snd (dataset ! r)) = map (\<lambda>name. label_column df name ! r) ?names"
      if "r \<in> set ?idx" for r
      using tensor_dataset_nth [OF ds, of r] idx_lt [OF that] dlen rows by simp
    then show ?thesis unfolding val subset_def by simp
  qed
  have tb: "?tb = map (\<lambda>r. map (\<lambda>name. label_column df name ! r = 1) ?names) ?idx"
  proof -
    have "?tb = map (map (\<lambda>t. t = 1)) (map (\<lambda>s. snd (snd s)) (concat (val_dataloader (snd split))))"
      by (simp add: evaluate_eq map_concat)
    then show ?thesis
      unfolding concat_val_dataloader true_rows by (simp add: comp_def)
  qed
  have pb: "?pb = map (map (\<lambda>x. 0.5 < sigmoid x)) ?logits"
    by (simp add: evaluate_eq)
  note cr = confusion_report_nth [OF rp]
  have width: "length (hd ?tb) = length ?names"
    using cr(1) unfolding tb by (cases ?idx) simp_all
  have report: "report = zip ?names
      (map (\<lambda>j. confusion_matrix (column_of ?tb j) (column_of ?pb j)) [0..<length ?names])"
    using cr(3) width by simp
  have llen: "length l = length ?names" if "l \<in> set ?logits" for l
  proof -
    from that have "map (\<lambda>x. 0.5 < sigmoid x) l \<in> set ?pb" unfolding pb set_map by (rule imageI)
    moreover from cr(2) have "\<forall>r \<in> set ?pb. length r = length (hd ?tb)"
      by (simp add: list_all_iff)
    ultimately have "length (map (\<lambda>x. 0.5 < sigmoid x) l) = length (hd ?tb)" by blast
    then show ?thesis using width by (simp only: length_map)
  qed
  have entry: "report ! i = (?names ! i, confusion_matrix (column_of ?tb i) (column_of ?pb i)) \<and>
               column_of ?tb i = map (\<lambda>r. label_column df (?names ! i) ! r = 1) ?idx \<and>
               column_of ?pb i = map (\<lambda>logits. 0.5 < sigmoid (logits ! i)) ?logits"
    if i: "i < length ?names" for i
  proof (intro conjI)
    show "report ! i = (?names ! i, confusion_matrix (column_of ?tb i) (column_of ?pb i))"
      unfolding report using i by simp
    show "column_of ?tb i = map (\<lambda>r. label_column df (?names ! i) ! r = 1) ?idx"
      unfolding tb column_of_def using i by simp
    show "column_of ?pb i = map (\<lambda>logits. 0.5 < sigmoid (logits ! i)) ?logits"
      unfolding pb column_of_def using i llen by simp
  qed
  have "length report = length ?names"
    unfolding report by simp
  with entry show ?thesis
    unfolding nb by (simp add: list_all_iff)
qed


lemma run_notebook_stages:
  assumes "label_names df = Inr names"
    and "labels df names = Inr labs"
    and "df_text df = Inr strings"
    and "TOKENIZER strings 256 = Inr toks"
    and "tensor_dataset (fst toks) (snd toks) labs = Inr dataset"
    and "train_validation_split randperm dataset (fst (shape (fst toks))) = Inr split"
    and "train_dataloader (fst split) = Inr loader"
    and "train n_gpu ops (length names) shuffle loader model = Inr trained"
    and "val_flat_accuracy (fst (evaluate ops (fst trained) (val_dataloader (snd split))))
           (snd (evaluate ops (fst trained) (val_dataloader (snd split)))) = Inr acc"
    and "confusion_report names (fst (evaluate ops (fst trained) (val_dataloader (snd split))))
           (snd (evaluate ops (fst trained) (val_dataloader (snd split)))) = Inr report"
  shows "\<exists>nb. run_notebook TOKENIZER randperm shuffle n_gpu ops model df = Inr nb"
  using assms by (simp add: run_notebook_def Let_def)


theorem label_index_consistent_witness:
  "sample_table example_df6 \<and>
   sort [3, 1, 0, 4, 5, 2] = [0..<nrows example_df6] \<and>
   (\<exists>nb. run_notebook stub_tokenizer [3, 1, 0, 4, 5, 2] (\<lambda>e. [1, 0, 3, 2]) 2 toy_ops2
            (1 / 1000) example_df6 = Inr nb \<and>
         nb_label_names nb = [''email'', ''phone''] \<and>
         fst (nb_report nb ! 0) = ''email'' \<and> fst (nb_report nb ! 1) = ''phone'' \<and>
         column_of (nb_true_bools nb) 0 = [True, False] \<and>
         column_of (nb_true_bools nb) 1 = [False, True])"
proof -
  let ?row = "\<lambda>k. replicate 256 (k :: int)"
  let ?ones = "replicate 256 (1 :: int)"
  let ?tr = "[(?row 8, ?ones, [1, 1]), (?row 5, ?ones, [0, 0]), (?row 5, ?ones, [1, 0]),
              (?row 3, ?ones, [0, 0])] :: sample list"
  let ?va = "[(?row 6, ?ones, [1, 0]), (?row 8, ?ones, [0, 1])] :: sample list"
  have tab: "sample_table example_df6"
    by (simp add: sample_table_def valid_df_def df_columns_def example_df6_def)
  have perm: "sort [3, 1, 0, 4, 5, 2] = [0..<nrows example_df6]"
    by (simp add: example_df6_def upt_rec)
  have n: "label_names example_df6 = Inr [''email'', ''phone'']"
    by (simp add: label_names_def df_columns_def example_df6_def)
  have l: "labels example_df6 [''email'', ''phone''] =
      Inr \<lparr>shape = (6, 2), rows = [[1, 0], [0, 0], [0, 1], [1, 1], [0, 0], [1, 0]]\<rparr>"
    by (simp add: labels_def df_getitem_def to_tensor_def map_tensor_def example_df6_def upt_rec)
  have s: "df_text example_df6 =
      Inr [''a@b.c'', ''hello'', ''call 555'', ''x@y.z 77'', ''bye'', ''me@x.y'']"
    by (simp add: df_text_def example_df6_def)
  have t: "stub_tokenizer [''a@b.c'', ''hello'', ''call 555'', ''x@y.z 77'', ''bye'', ''me@x.y''] 256
      = Inr (\<lparr>shape = (6, 256), rows = [?row 5, ?row 5, ?row 8, ?row 8, ?row 3, ?row 6]\<rparr>,
             \<lparr>shape = (6, 256), rows = [?ones, ?ones, ?ones, ?ones, ?ones, ?ones]\<rparr>)"
    by (simp add: stub_tokenizer_def)
  have d: "tensor_dataset
      (fst (\<lparr>shape = (6, 256), rows = [?row 5, ?row 5, ?row 8, ?row 8, ?row 3, ?row 6]\<rparr>,
             \<lparr>shape = (6, 256), rows = [?ones, ?ones, ?ones, ?ones, ?ones, ?ones]\<rparr>))
      (snd (\<lparr>shape = (6, 256), rows = [?row 5, ?row 5, ?row 8, ?row 8, ?row 3, ?row 6]\<rparr>,
             \<lparr>shape = (6, 256), rows = [?ones, ?ones, ?ones, ?ones, ?ones, ?ones]\<rparr>))
      \<lparr>shape = (6, 2), rows = [[1, 0], [0, 0], [0, 1], [1, 1], [0, 0], [1, 0]]\<rparr>
      = Inr [(?row 5, ?ones, [1, 0]), (?row 5, ?ones, [0, 0]), (?row 8, ?ones, [0, 1]),
             (?row 8, ?ones, [1, 1]), (?row 3, ?ones, [0, 0]), (?row 6, ?ones, [1, 0])]"
    by (simp add: tensor_dataset_def)
  have sp: "train_validation_split [3, 1, 0, 4, 5, 2]
      [(?row 5, ?ones, [1, 0]), (?row 5, ?ones, [0, 0]), (?row 8, ?ones, [0, 1]),
       (?row 8, ?ones, [1, 1]), (?row 3, ?ones, [0, 0]), (?row 6, ?ones, [1, 0])]
      (fst (shape (fst (\<lparr>shape = (6, 256), rows = [?row 5, ?row 5, ?row 8, ?row 8, ?row 3, ?row 6]\<rparr>,
             \<lparr>shape = (6, 256), rows = [?ones, ?ones, ?ones, ?ones, ?ones, ?ones]\<rparr>))))
      = Inr (?tr, ?va)"
    by (simp add: train_validation_split_def random_split_def py_slice_def subset_def
        train_size_def py_int_def)
  have two: "length [''email'', ''phone''] = 2" by simp
  have ld: "train_dataloader (fst (?tr, ?va)) = Inr ?tr"
    by (simp add: train_dataloader_def)
  have dl: "train_batches ?tr [1, 0, 3, 2] =
      [[(?row 5, ?ones, [0, 0]), (?row 8, ?ones, [1, 1]), (?row 3, ?ones, [0, 0]),
        (?row 5, ?ones, [1, 0])]]"
    by (simp add: train_batches_def data_loader_def subset_def chunks.simps)
  have ep: "\<exists>r. train_epoch 2 toy_ops2 (length [''email'', ''phone'']) m
               (train_batches ?tr ((\<lambda>e. [1, 0, 3, 2]) e)) = Inr r" for e m
    unfolding two dl
  proof (rule train_epoch_total)
    fix m' :: real and b :: "sample list"
    assume "b \<in> set [[(?row 5, ?ones, [0, 0]), (?row 8, ?ones, [1, 1]),
                       (?row 3, ?ones, [0, 0]), (?row 5, ?ones, [1, 0])]]"
    then have b: "b = [(?row 5, ?ones, [0, 0]), (?row 8, ?ones, [1, 1]),
                       (?row 3, ?ones, [0, 0]), (?row 5, ?ones, [1, 0])]" by simp
    show "\<exists>mx. train_batch 2 toy_ops2 2 m' b = Inr mx"
      unfolding b by (rule train_batch_mean) (simp_all add: view_def toy_ops2_def toy_ops_def)
  qed simp
  have tr: "\<exists>trained. train 2 toy_ops2 (length [''email'', ''phone'']) (\<lambda>e. [1, 0, 3, 2])
              ?tr (1 / 1000) = Inr trained"
    unfolding train_def by (rule train_loop_total) (rule ep)
  then obtain trained where trd: "train 2 toy_ops2 (length [''email'', ''phone''])
              (\<lambda>e. [1, 0, 3, 2]) ?tr (1 / 1000) = Inr trained" ..
  let ?bools = "evaluate toy_ops2 (fst trained) (val_dataloader (snd (?tr, ?va)))"
  have vd: "val_dataloader (snd (?tr, ?va)) = [?va]"
    by (simp add: val_dataloader_def data_loader_def subset_def chunks.simps upt_rec)
  have tb: "fst ?bools = [[True, False], [False, True]]"
    unfolding vd by (simp add: evaluate_eq)
  have "\<exists>a b c d. snd ?bools = [[a, b], [c, d]]"
    unfolding vd by (simp add: evaluate_eq toy_ops2_def toy_ops_def)
  then obtain a b c d where pb: "snd ?bools = [[a, b], [c, d]]" by blast
  have acc: "\<exists>acc. val_flat_accuracy (fst ?bools) (snd ?bools) = Inr acc"
    unfolding tb pb by (simp add: val_flat_accuracy_def accuracy_score_def)
  then obtain acc where acc: "val_flat_accuracy (fst ?bools) (snd ?bools) = Inr acc" ..
  have "\<exists>report. confusion_report [''email'', ''phone''] (fst ?bools) (snd ?bools) = Inr report"
    unfolding tb pb by (simp add: confusion_report_def multilabel_confusion_matrix_def)
  then obtain report where
    rep: "confusion_report [''email'', ''phone''] (fst ?bools) (snd ?bools) = Inr report" ..
  from run_notebook_stages [where TOKENIZER = stub_tokenizer, OF n l s t d sp ld trd acc rep]
  obtain nb where
    run: "run_notebook stub_tokenizer [3, 1, 0, 4, 5, 2] (\<lambda>e. [1, 0, 3, 2]) 2 toy_ops2
            (1 / 1000) example_df6 = Inr nb" ..
  note c = label_index_consistent [OF tab perm run]
  from c have nm: "nb_label_names nb = [''email'', ''phone'']"
    by (simp add: df_columns_def example_df6_def)
  from c have e: "nb_report nb ! i =
        (nb_label_names nb ! i,
         confusion_matrix (column_of (nb_true_bools nb) i) (column_of (nb_pred_bools nb) i)) \<and>
      column_of (nb_true_bools nb) i =
        map (\<lambda>r. label_column example_df6 (nb_label_names nb ! i) ! r = 1)
          (drop (train_size (nrows example_df6)) [3, 1, 0, 4, 5, 2])"
    if "i < length (nb_label_names nb)" for i
    using that by (simp add: list_all_iff)
  have ts: "train_size (nrows example_df6) = 4"
    by (simp add: train_size_def py_int_def example_df6_def)
  from e [of 0] have e0: "fst (nb_report nb ! 0) = ''email'' \<and>
      column_of (nb_true_bools nb) 0 = [True, False]"
    unfolding nm ts by (simp add: label_column_def example_df6_def)
  from e [of 1] have e1: "fst (nb_report nb ! 1) = ''phone'' \<and>
      column_of (nb_true_bools nb) 1 = [False, True]"
    unfolding nm ts by (simp add: label_column_def example_df6_def)
  from nm e0 e1
  have "nb_label_names nb = [''email'', ''phone''] \<and>
         fst (nb_report nb ! 0) = ''email'' \<and> fst (nb_report nb ! 1) = ''phone'' \<and>
         column_of (nb_true_bools nb) 0 = [True, False] \<and>
         column_of (nb_true_bools nb) 1 = [False, True]"
    by simp
  with tab perm run show ?thesis by blast
qed

end
